theory Spec2Isabelle
  imports Main "HOL-Library.AList"
begin

section \<open>JavaScript \<open>Map\<close> objects\<close>

text \<open>
  A JavaScript \<open>Map\<close> keeps its entries in insertion order. \<open>set\<close> on a key that is
  present replaces the value where the entry stands, \<open>set\<close> on a new key appends the
  entry, \<open>delete\<close> removes the entry. The model is an association list with these
  operations; that no key occurs twice is an invariant that the theorems below state
  and prove, not a property of the type.
\<close>

type_synonym ('k, 'v) jsmap = "('k \<times> 'v) list"

definition map_has :: "('k, 'v) jsmap \<Rightarrow> 'k \<Rightarrow> bool" where
  "map_has m k = (map_of m k \<noteq> None)"

definition map_get :: "('k, 'v) jsmap \<Rightarrow> 'k \<Rightarrow> 'v option" where
  "map_get m k = map_of m k"

definition map_set :: "('k, 'v) jsmap \<Rightarrow> 'k \<Rightarrow> 'v \<Rightarrow> ('k, 'v) jsmap" where
  "map_set m k v = AList.update k v m"

definition map_delete :: "('k, 'v) jsmap \<Rightarrow> 'k \<Rightarrow> ('k, 'v) jsmap" where
  "map_delete m k = AList.delete k m"

definition map_keys :: "('k, 'v) jsmap \<Rightarrow> 'k list" where
  "map_keys m = map fst m"

definition map_values :: "('k, 'v) jsmap \<Rightarrow> 'v list" where
  "map_values m = map snd m"

definition map_size :: "('k, 'v) jsmap \<Rightarrow> nat" where
  "map_size m = length m"

text \<open>A list without its element number \<open>n\<close>: a pending task that has run.\<close>

definition dropNth :: "nat \<Rightarrow> 'a list \<Rightarrow> 'a list" where
  "dropNth n xs = take n xs @ drop (Suc n) xs"

section \<open>Environment information (\<open>environmentInfoService.ts\<close>)\<close>

datatype InterpreterType = unknown | cpython

datatype EnvironmentType =
  Unknown | Conda | Poetry | PyEnv | PipEnv | WindowsStore | Venv
  | VirtualEnvWrapper | VirtualEnv | Global | System

text \<open>
  \<open>Architecture\<close> and \<open>PythonVersion\<close> are imported by the source from files that are
  not part of it; their shape is taken from the fields the constructor call in
  \<open>EnvironmentInfoService\<close> reads and from the data model of the specification
  (architecture x86, x64 or unknown).
\<close>

datatype Architecture = ArchUnknown | x86 | x64

record PythonVersion =
  raw :: string
  major :: int
  minor :: int
  patch :: int
  build :: "string list"
  prerelease :: "string list"

record IEnvironmentInfo =
  interpreterPath :: string
  interpreterType :: InterpreterType
  environmentType :: EnvironmentType
  architecture :: Architecture
  version :: "PythonVersion option"

datatype EnvironmentInfoServiceQueuePriority = Default | High


text \<open>
  What \<open>getInterpreterInfo\<close> hands to the worker function: the architecture and,
  when the interpreter's output could be parsed, its version.
\<close>

record InterpreterInformation =
  info_architecture :: Architecture
  info_version :: "PythonVersion option"

text \<open>
  The worker function that the constructor installs when no pool is passed: the probe
  \<open>getInterpreterInfo\<close> is external and is a parameter, \<open>None\<close> when spawning or parsing
  fails.
\<close>

definition defaultWorker ::
  "(string \<Rightarrow> InterpreterInformation option) \<Rightarrow> string \<Rightarrow> IEnvironmentInfo option" where
  "defaultWorker getInterpreterInfo p =
     (case getInterpreterInfo p of
        None \<Rightarrow> None
      | Some interpreterInfo \<Rightarrow>
          (case info_version interpreterInfo of
             None \<Rightarrow> None
           | Some v \<Rightarrow>
               Some \<lparr> interpreterPath = p,
                      interpreterType = cpython,
                      environmentType = Unknown,
                      architecture = info_architecture interpreterInfo,
                      version = Some \<lparr> raw = raw v, major = major v, minor = minor v,
                                       patch = patch v, build = build v,
                                       prerelease = prerelease v \<rparr> \<rparr>))"









section \<open>Environment records and their merge\<close>

text \<open>
  \<open>PartialPythonEnvironment\<close> is every field of \<open>PythonEnvironment\<close> made optional, except
  \<open>path\<close>. The declaration of \<open>PythonEnvironment\<close> is not among the sources; the fields
  are those of the interpreter record in the data model of the specification.
\<close>

record PartialPythonEnvironment =
  path :: string
  envType :: "EnvironmentType option"
  envVersion :: "PythonVersion option"
  envArchitecture :: "Architecture option"
  envName :: "string option"

text \<open>
  Modelled from the spec: \<open>mergeEnvironments\<close> is imported from a file that is not among
  the sources. The specification: merge combines records into one, and for each field
  the value of the record that comes earlier wins where both have one, otherwise the
  value of whichever record has one. The callers pass a list and read a list back, one
  record per path, in the order in which the paths first occur. Paths are compared as
  they are written.
\<close>

definition orElse :: "'a option \<Rightarrow> 'a option \<Rightarrow> 'a option" where
  "orElse a b = (case a of None \<Rightarrow> b | Some x \<Rightarrow> Some x)"

definition updateEnvironment ::
  "PartialPythonEnvironment \<Rightarrow> PartialPythonEnvironment \<Rightarrow> PartialPythonEnvironment" where
  "updateEnvironment existing current =
     existing\<lparr> envType := orElse (envType existing) (envType current),
               envVersion := orElse (envVersion existing) (envVersion current),
               envArchitecture := orElse (envArchitecture existing) (envArchitecture current),
               envName := orElse (envName existing) (envName current) \<rparr>"

fun mergeInto ::
  "PartialPythonEnvironment list \<Rightarrow> PartialPythonEnvironment \<Rightarrow> PartialPythonEnvironment list"
  where
  "mergeInto [] current = [current]"
| "mergeInto (item # accumulator) current =
     (if path item = path current then updateEnvironment item current # accumulator
      else item # mergeInto accumulator current)"

definition mergeEnvironments :: "PartialPythonEnvironment list \<Rightarrow> PartialPythonEnvironment list"
  where
  "mergeEnvironments environments = foldl mergeInto [] environments"

text \<open>
  The enrichment result read as a record of the same shape, as the completion handler
  passes it to \<open>mergeEnvironments\<close>.
\<close>

definition asEnvironment :: "IEnvironmentInfo \<Rightarrow> PartialPythonEnvironment" where
  "asEnvironment i =
     \<lparr> path = interpreterPath i, envType = Some (environmentType i), envVersion = version i,
       envArchitecture = Some (architecture i), envName = None \<rparr>"

section \<open>Paths (\<open>utils.ts\<close>)\<close>

definition resolvePossibleSymlinkToRealPath :: "string \<Rightarrow> string" where
  "resolvePossibleSymlinkToRealPath p = p"

text \<open>
  \<open>path.normalize\<close> belongs to the runtime, not to the repository. The storage takes
  it as a parameter; \<open>posix_normalize\<close> is what it computes on POSIX (empty and \<open>.\<close>
  segments dropped, \<open>..\<close> resolved, a trailing separator kept), for the concrete runs.
\<close>

fun splitSlash :: "string \<Rightarrow> string \<Rightarrow> string list" where
  "splitSlash acc [] = [rev acc]"
| "splitSlash acc (c # cs) =
     (if c = CHR ''/'' then rev acc # splitSlash [] cs else splitSlash (c # acc) cs)"

fun normalizeSegments :: "bool \<Rightarrow> string list \<Rightarrow> string list \<Rightarrow> string list" where
  "normalizeSegments allowAboveRoot res [] = rev res"
| "normalizeSegments allowAboveRoot res (x # xs) =
     (if x = [] \<or> x = ''.'' then normalizeSegments allowAboveRoot res xs
      else if x = ''..'' then
        (case res of
           [] \<Rightarrow> normalizeSegments allowAboveRoot (if allowAboveRoot then [''..''] else []) xs
         | t # ts \<Rightarrow>
             if t \<noteq> ''..'' then normalizeSegments allowAboveRoot ts xs
             else normalizeSegments allowAboveRoot
                    (if allowAboveRoot then ''..'' # res else res) xs)
      else normalizeSegments allowAboveRoot (x # res) xs)"

fun joinSlash :: "string list \<Rightarrow> string" where
  "joinSlash [] = []"
| "joinSlash [x] = x"
| "joinSlash (x # y # ys) = x @ ''/'' @ joinSlash (y # ys)"

definition posix_normalize :: "string \<Rightarrow> string" where
  "posix_normalize p =
     (case p of
        [] \<Rightarrow> ''.''
      | c # _ \<Rightarrow>
          (let isAbsolute = (c = CHR ''/'');
               trailingSeparator = (last p = CHR ''/'');
               res = joinSlash (normalizeSegments (\<not> isAbsolute) [] (splitSlash [] p))
           in if res = [] then (if isAbsolute then ''/'' else if trailingSeparator then ''./'' else ''.'')
              else (if isAbsolute then ''/'' else []) @ res
                   @ (if trailingSeparator then ''/'' else [])))"

section \<open>The environments storage (\<open>environmentsStorage.ts\<close>)\<close>

text \<open>
  \<open>EnvironmentsCollection\<close> holds the same two maps and the same deferred, and its
  \<open>getEnvironments\<close>, \<open>addPartialInfo\<close> and \<open>removeInvalidEntriesFromEnvironmentMaps\<close>
  repeat the text of \<open>EnvironmentsStorage\<close>, which is the class modelled here. (The
  collection starts the locators itself and resolves the deferred once more after each
  \<open>addPartialInfo\<close> for a record of a locator.)

  The code runs on one thread and gives up control only at an \<open>await\<close> or when a
  function returns its promise. The model has one atomic step for each stretch of code
  between two such points, and the events of the outside world (a record arriving from
  a locator, an enrichment promise resolving, a file check resolving, discovery
  ending) choose the order of the steps.
\<close>

record GetEnvironmentLocatorOptions =
  ignoreCache :: "bool option"
  getAllEnvironments :: "bool option"
  getCompleteInfoForAllEnvironments :: "bool option"

datatype EnvironmentMap = PartialMap | CompleteMap

record EnvironmentsStorage =
  partialInfoEnvironmentMap :: "(string, PartialPythonEnvironment) jsmap"
  completeInfoEnvironmentMap :: "(string, PartialPythonEnvironment) jsmap"
  didEffortToPopulateStorageSucceed :: "bool option"
    \<comment> \<open>the deferred: \<open>None\<close> while pending, \<open>Some b\<close> once resolved with \<open>b\<close>\<close>
  didChangeCollectionFired :: nat
    \<comment> \<open>how often \<open>didChangeCollectionEmitter.fire()\<close> ran\<close>
  environmentInfoRequests :: "string list"
    \<comment> \<open>the paths passed to \<open>environmentsInfo.getEnvironmentInfo\<close>, in order\<close>
  storeCompleteInfoPending :: "(PartialPythonEnvironment \<times> bool) list"
    \<comment> \<open>completion handlers not yet run: the captured \<open>interpreter\<close>, and whether
        \<open>addPartialInfo\<close> awaits the handler\<close>
  validityPending :: "(EnvironmentMap \<times> string \<times> PartialPythonEnvironment) list"
    \<comment> \<open>file checks of \<open>removeInvalidEntriesFromStorage\<close> not yet resolved\<close>
  waitingCalls :: nat
    \<comment> \<open>calls of \<open>getEnvironments\<close> waiting at the race\<close>
  returned :: "PartialPythonEnvironment list list"
    \<comment> \<open>what the calls of \<open>getEnvironments\<close> returned, in order\<close>

text \<open>Resolving a deferred that is already resolved changes nothing.\<close>

definition resolveDeferred :: "bool \<Rightarrow> bool option \<Rightarrow> bool option" where
  "resolveDeferred v d = (case d of None \<Rightarrow> Some v | Some x \<Rightarrow> Some x)"

text \<open>The constructor, on the two maps read from the persistent state.\<close>

definition newEnvironmentsStorage ::
  "(string, PartialPythonEnvironment) jsmap \<Rightarrow> (string, PartialPythonEnvironment) jsmap \<Rightarrow>
   EnvironmentsStorage" where
  "newEnvironmentsStorage partialMap completeMap =
     \<lparr> partialInfoEnvironmentMap = partialMap,
       completeInfoEnvironmentMap = completeMap,
       didEffortToPopulateStorageSucceed =
         (if map_size partialMap > 0 \<or> map_size completeMap > 0 then Some True else None),
       didChangeCollectionFired = 0,
       environmentInfoRequests = [],
       storeCompleteInfoPending = [],
       validityPending = [],
       waitingCalls = 0,
       returned = [] \<rparr>"

definition wantsCompleteInfo :: "GetEnvironmentLocatorOptions option \<Rightarrow> bool" where
  "wantsCompleteInfo options =
     (case options of None \<Rightarrow> False
      | Some opts \<Rightarrow> getCompleteInfoForAllEnvironments opts = Some True)"

text \<open>
  \<open>addPartialInfo\<close> up to the point where it returns or awaits the handler. The
  handler itself runs later, when the enrichment promise resolves.
\<close>

definition addPartialInfo ::
  "(string \<Rightarrow> string) \<Rightarrow> PartialPythonEnvironment \<Rightarrow> GetEnvironmentLocatorOptions option \<Rightarrow>
   EnvironmentsStorage \<Rightarrow> EnvironmentsStorage" where
  "addPartialInfo normalizePath interpreter0 options s =
     (let interpreter1 =
            interpreter0\<lparr> path := normalizePath (resolvePossibleSymlinkToRealPath (path interpreter0)) \<rparr>
      in if map_has (completeInfoEnvironmentMap s) (path interpreter1) then s
         else
           (let s1 = s\<lparr> environmentInfoRequests :=
                         environmentInfoRequests s @ [path interpreter1] \<rparr>;
                interpreter =
                  (case map_get (partialInfoEnvironmentMap s1) (path interpreter1) of
                     None \<Rightarrow> interpreter1
                   | Some storedValue \<Rightarrow>
                       (case mergeEnvironments [storedValue, interpreter1] of
                          merged # _ \<Rightarrow> merged
                        | [] \<Rightarrow> interpreter1))
            in if wantsCompleteInfo options then
                 s1\<lparr> storeCompleteInfoPending :=
                       storeCompleteInfoPending s1 @ [(interpreter, True)] \<rparr>
               else
                 s1\<lparr> storeCompleteInfoPending :=
                       storeCompleteInfoPending s1 @ [(interpreter, False)],
                     partialInfoEnvironmentMap :=
                       map_set (partialInfoEnvironmentMap s1) (path interpreter) interpreter,
                     didChangeCollectionFired := didChangeCollectionFired s1 + 1,
                     didEffortToPopulateStorageSucceed :=
                       resolveDeferred True (didEffortToPopulateStorageSucceed s1) \<rparr>))"

text \<open>
  The completion handler of \<open>addPartialInfo\<close>, with the \<open>interpreter\<close> it captured and
  the value the enrichment promise resolved to. When \<open>addPartialInfo\<close> awaits the
  handler (\<open>awaited\<close>), the rest of \<open>addPartialInfo\<close> follows: it resolves the deferred.
\<close>

definition storeCompleteInfo ::
  "PartialPythonEnvironment \<Rightarrow> bool \<Rightarrow> IEnvironmentInfo option \<Rightarrow> EnvironmentsStorage \<Rightarrow>
   EnvironmentsStorage" where
  "storeCompleteInfo interpreter awaited environmentInfo s =
     (let s1 =
            (case environmentInfo of
               None \<Rightarrow> s
             | Some info \<Rightarrow>
                 (case mergeEnvironments [asEnvironment info, interpreter] of
                    completeEnvironmentInfo # _ \<Rightarrow>
                      s\<lparr> completeInfoEnvironmentMap :=
                           map_set (completeInfoEnvironmentMap s) (path interpreter)
                             completeEnvironmentInfo \<rparr>
                  | [] \<Rightarrow> s));
          s2 = (if map_has (partialInfoEnvironmentMap s1) (path interpreter)
                then s1\<lparr> partialInfoEnvironmentMap :=
                           map_delete (partialInfoEnvironmentMap s1) (path interpreter) \<rparr>
                else s1);
          s3 = s2\<lparr> didChangeCollectionFired := didChangeCollectionFired s2 + 1 \<rparr>
      in if awaited
         then s3\<lparr> didEffortToPopulateStorageSucceed :=
                    resolveDeferred True (didEffortToPopulateStorageSucceed s3) \<rparr>
         else s3)"

text \<open>
  \<open>removeInvalidEntriesFromStorage\<close>: for every entry of the two maps an asynchronous
  function starts and calls \<open>isEnvironmentValid\<close>, which asks the file system. The
  callback of the outer \<open>map\<close> has a block body without \<open>return\<close>, so \<open>Promise.all\<close>
  receives two \<open>undefined\<close> values and resolves without waiting for any of the checks:
  when the function returns, the checks are pending and no entry has been deleted.
\<close>

definition removeInvalidEntriesFromStorage :: "EnvironmentsStorage \<Rightarrow> EnvironmentsStorage" where
  "removeInvalidEntriesFromStorage s =
     s\<lparr> validityPending :=
           validityPending s
           @ map (\<lambda>(key, environment). (PartialMap, key, environment))
               (partialInfoEnvironmentMap s)
           @ map (\<lambda>(key, environment). (CompleteMap, key, environment))
               (completeInfoEnvironmentMap s) \<rparr>"

text \<open>
  One pending check resumes: \<open>isEnvironmentValid\<close> has resolved to whether the file at
  the record's path exists, and the entry is deleted from its map if it does not.
\<close>

definition isEnvironmentValid :: "(string \<Rightarrow> bool) \<Rightarrow> PartialPythonEnvironment \<Rightarrow> bool" where
  "isEnvironmentValid fileExists interpreter = fileExists (path interpreter)"

definition validityResolved ::
  "(string \<Rightarrow> bool) \<Rightarrow> EnvironmentMap \<times> string \<times> PartialPythonEnvironment \<Rightarrow>
   EnvironmentsStorage \<Rightarrow> EnvironmentsStorage" where
  "validityResolved fileExists check s =
     (case check of (which, key, environment) \<Rightarrow>
        if isEnvironmentValid fileExists environment then s
        else (case which of
                PartialMap \<Rightarrow>
                  s\<lparr> partialInfoEnvironmentMap := map_delete (partialInfoEnvironmentMap s) key \<rparr>
              | CompleteMap \<Rightarrow>
                  s\<lparr> completeInfoEnvironmentMap :=
                       map_delete (completeInfoEnvironmentMap s) key \<rparr>))"

text \<open>
  \<open>getEnvironments\<close> in three parts: the call up to the race; the callback on
  \<open>areAllEnvironmentsStoredPromise\<close>; and the rest of the body, which runs once the
  race is over, that is, once the deferred is resolved (the callback resolves it when
  nothing else has).
\<close>

definition getEnvironments_called :: "EnvironmentsStorage \<Rightarrow> EnvironmentsStorage" where
  "getEnvironments_called s =
     (let s1 = removeInvalidEntriesFromStorage s in s1\<lparr> waitingCalls := waitingCalls s1 + 1 \<rparr>)"

definition allEnvironmentsStored :: "EnvironmentsStorage \<Rightarrow> EnvironmentsStorage" where
  "allEnvironmentsStored s =
     (if waitingCalls s > 0 \<and> didEffortToPopulateStorageSucceed s = None
      then s\<lparr> didEffortToPopulateStorageSucceed := Some False \<rparr>
      else s)"

definition getEnvironments_items :: "EnvironmentsStorage \<Rightarrow> PartialPythonEnvironment list" where
  "getEnvironments_items s =
     mergeEnvironments
       (map_values (partialInfoEnvironmentMap s) @ map_values (completeInfoEnvironmentMap s))"

definition getEnvironments_returns :: "EnvironmentsStorage \<Rightarrow> EnvironmentsStorage" where
  "getEnvironments_returns s =
     (if waitingCalls s > 0 \<and> didEffortToPopulateStorageSucceed s \<noteq> None
      then s\<lparr> waitingCalls := waitingCalls s - 1,
              returned := returned s @ [getEnvironments_items s] \<rparr>
      else s)"

text \<open>
  The events, and a run of the storage under a sequence of them. An event that names
  a pending task that does not exist changes nothing. The enrichment result is built
  by the service's worker from the outcome of the probe, for the path that was
  requested.
\<close>

datatype event =
    AddPartialInfo PartialPythonEnvironment "GetEnvironmentLocatorOptions option"
  | EnrichmentResolved nat "InterpreterInformation option"
  | GetEnvironmentsCalled
  | ValidityResolved nat
  | AllEnvironmentsStored
  | GetEnvironmentsReturns

fun step ::
  "(string \<Rightarrow> string) \<Rightarrow> (string \<Rightarrow> bool) \<Rightarrow> event \<Rightarrow> EnvironmentsStorage \<Rightarrow>
   EnvironmentsStorage" where
  "step normalizePath fileExists (AddPartialInfo interpreter options) s =
     addPartialInfo normalizePath interpreter options s"
| "step normalizePath fileExists (EnrichmentResolved n probe) s =
     (if n < length (storeCompleteInfoPending s) then
        (case storeCompleteInfoPending s ! n of (interpreter, awaited) \<Rightarrow>
           storeCompleteInfo interpreter awaited
             (defaultWorker (\<lambda>_. probe) (path interpreter))
             (s\<lparr> storeCompleteInfoPending := dropNth n (storeCompleteInfoPending s) \<rparr>))
      else s)"
| "step normalizePath fileExists GetEnvironmentsCalled s = getEnvironments_called s"
| "step normalizePath fileExists (ValidityResolved n) s =
     (if n < length (validityPending s) then
        validityResolved fileExists (validityPending s ! n)
          (s\<lparr> validityPending := dropNth n (validityPending s) \<rparr>)
      else s)"
| "step normalizePath fileExists AllEnvironmentsStored s = allEnvironmentsStored s"
| "step normalizePath fileExists GetEnvironmentsReturns s = getEnvironments_returns s"

fun run ::
  "(string \<Rightarrow> string) \<Rightarrow> (string \<Rightarrow> bool) \<Rightarrow> event list \<Rightarrow> EnvironmentsStorage \<Rightarrow>
   EnvironmentsStorage" where
  "run normalizePath fileExists [] s = s"
| "run normalizePath fileExists (e # es) s = run normalizePath fileExists es (step normalizePath fileExists e s)"

text \<open>
  Well-formed storage: no key twice in either map, every record stored under its own
  path, and no path in both maps.
\<close>

definition keys_match :: "(string, PartialPythonEnvironment) jsmap \<Rightarrow> bool" where
  "keys_match m = list_all (\<lambda>(key, environment). path environment = key) m"

definition storage_wf :: "EnvironmentsStorage \<Rightarrow> bool" where
  "storage_wf s =
     (distinct (map_keys (partialInfoEnvironmentMap s))
      \<and> distinct (map_keys (completeInfoEnvironmentMap s))
      \<and> keys_match (partialInfoEnvironmentMap s)
      \<and> keys_match (completeInfoEnvironmentMap s)
      \<and> list_all (\<lambda>key. \<not> map_has (completeInfoEnvironmentMap s) key)
            (map_keys (partialInfoEnvironmentMap s)))"




text \<open>Enrichment events whose probe gave a version (so that the worker builds a result).\<close>

fun probeSucceeds :: "event \<Rightarrow> bool" where
  "probeSucceeds (EnrichmentResolved n probe) =
     (case probe of None \<Rightarrow> False | Some interpreterInfo \<Rightarrow> info_version interpreterInfo \<noteq> None)"
| "probeSucceeds ev = True"

section \<open>Strings, regular expressions and \<open>parseInt\<close>\<close>

text \<open>
  Strings are lists of characters; the kernel names, languages and paths the code
  compares are ASCII. \<open>toLocaleLowerCase\<close> maps the letters A to Z to a to z.
\<close>

definition isDigit :: "char \<Rightarrow> bool" where
  "isDigit c = (c \<in> set ''0123456789'')"

definition lowerChar :: "char \<Rightarrow> char" where
  "lowerChar c =
     (case map_of (zip ''ABCDEFGHIJKLMNOPQRSTUVWXYZ'' ''abcdefghijklmnopqrstuvwxyz'') c of
        None \<Rightarrow> c | Some l \<Rightarrow> l)"

definition toLocaleLowerCase :: "string \<Rightarrow> string" where
  "toLocaleLowerCase str = map lowerChar str"

text \<open>
  \<open>/\D+(\d+)/.exec(name)\<close>: the leftmost match. A match starts at a character that is
  not a digit, so the digits at the front of the name are skipped; \<open>\D+\<close> then takes
  the whole run of non-digits, and there is a match when a digit follows the run.
  The result is \<open>(match[0], match[1])\<close>: the whole match and the group of digits.
\<close>

definition nameDigitsRegEx_exec :: "string \<Rightarrow> (string \<times> string) option" where
  "nameDigitsRegEx_exec name =
     (let rest = dropWhile isDigit name;
          nonDigits = takeWhile (\<lambda>c. \<not> isDigit c) rest;
          digits = takeWhile isDigit (dropWhile (\<lambda>c. \<not> isDigit c) rest)
      in if nonDigits \<noteq> [] \<and> digits \<noteq> [] then Some (nonDigits @ digits, digits) else None)"

text \<open>
  \<open>parseInt(str, 10)\<close>: white space at the front is skipped, then an optional sign, then
  the longest run of decimal digits is read; without a digit there the result is
  \<open>NaN\<close>, here \<open>None\<close>.
\<close>

definition isWhiteSpace :: "char \<Rightarrow> bool" where
  "isWhiteSpace c = (c \<in> {CHR '' '', CHR 0x09, CHR 0x0A, CHR 0x0B, CHR 0x0C, CHR 0x0D})"

definition digitValue :: "char \<Rightarrow> int" where
  "digitValue c = (case map_of (zip ''0123456789'' [0, 1, 2, 3, 4, 5, 6, 7, 8, 9]) c of
                     None \<Rightarrow> 0 | Some d \<Rightarrow> d)"

definition decimalValue :: "string \<Rightarrow> int" where
  "decimalValue ds = foldl (\<lambda>acc c. 10 * acc + digitValue c) 0 ds"

definition parseInt :: "string \<Rightarrow> int option" where
  "parseInt str =
     (let s1 = dropWhile isWhiteSpace str;
          negative = (case s1 of c # _ \<Rightarrow> c = CHR ''-'' | [] \<Rightarrow> False);
          s2 = (case s1 of c # cs \<Rightarrow> if c = CHR ''-'' \<or> c = CHR ''+'' then cs else s1
                | [] \<Rightarrow> s1);
          ds = takeWhile isDigit s2
      in if ds = [] then None
         else Some (if negative then - decimalValue ds else decimalValue ds))"

section \<open>Kernel specs and interpreters (\<open>jupyterExecution.ts\<close>)\<close>

text \<open>
  \<open>PythonInterpreter\<close> comes from a file that is not among the sources; the fields are
  those the code reads: \<open>path\<close>, the four components of \<open>version_info\<close> and \<open>type\<close>. The
  code compares interpreters with \<open>!==\<close>, which is identity of objects: \<open>objectId\<close>
  stands for the object.
\<close>

record PythonInterpreter =
  objectId :: nat
  interpreter_path :: string
  version_info :: "int \<times> int \<times> int \<times> string"
  interpreter_type :: EnvironmentType

record JupyterKernelSpec =
  spec_name :: string
  spec_language :: string
  spec_path :: string
  specFile :: "string option"

definition version_info_0 :: "PythonInterpreter \<Rightarrow> int" where
  "version_info_0 i = (case version_info i of (a, b, c, d) \<Rightarrow> a)"

definition version_info_1 :: "PythonInterpreter \<Rightarrow> int" where
  "version_info_1 i = (case version_info i of (a, b, c, d) \<Rightarrow> b)"

definition version_info_2 :: "PythonInterpreter \<Rightarrow> int" where
  "version_info_2 i = (case version_info i of (a, b, c, d) \<Rightarrow> c)"


record ExecutionResult =
  stdout :: string
  stderr :: "string option"

text \<open>
  What the class asks of the services injected into it. A process that throws is
  \<open>None\<close>; so is a directory that cannot be read.
\<close>

record Services =
  getActiveInterpreter :: "PythonInterpreter option"
  getInterpreters :: "PythonInterpreter list"
  getInterpreterInformation :: "PythonInterpreter option"
  getInterpreterDetails :: "string \<Rightarrow> PythonInterpreter option"
  pathExists :: "string \<Rightarrow> bool"
  execModule :: "string \<Rightarrow> string \<Rightarrow> string list \<Rightarrow> ExecutionResult option"
  exec :: "string \<Rightarrow> string list \<Rightarrow> ExecutionResult option"
  getSearchPaths :: "string list"
  fsReaddirAsync :: "string \<Rightarrow> string list option"
  unlink :: "string \<Rightarrow> bool"
  IS_WINDOWS :: bool

definition NotebookCommand :: string where "NotebookCommand = ''notebook''"
definition ConvertCommand :: string where "ConvertCommand = ''nbconvert''"
definition KernelSpecCommand :: string where "KernelSpecCommand = ''kernelspec''"
definition KernelCreateCommand :: string where "KernelCreateCommand = ''ipykernel''"

subsection \<open>\<open>findSpecMatch\<close>\<close>

text \<open>The points for the version of the interpreter that the spec's path resolves to.\<close>

definition versionPoints :: "PythonInterpreter \<Rightarrow> PythonInterpreter \<Rightarrow> int" where
  "versionPoints details info =
     (if version_info_0 details = version_info_0 info then
        4 + (if version_info_1 details = version_info_1 info then
               2 + (if version_info_2 details = version_info_2 info then 1 else 0)
             else 0)
      else 0)"

text \<open>
  The points for a digit at the end of the name. The code parses \<open>match[0]\<close>, the whole
  match, which begins with the characters that are not digits.
\<close>

definition namePoints :: "string \<Rightarrow> PythonInterpreter \<Rightarrow> int" where
  "namePoints name info =
     (case nameDigitsRegEx_exec name of
        None \<Rightarrow> 0
      | Some (match0, match1) \<Rightarrow>
          (case parseInt match0 of
             None \<Rightarrow> 0
           | Some nameVersion \<Rightarrow>
               if nameVersion \<noteq> 0 \<and> nameVersion = version_info_0 info then 4 else 0))"

text \<open>The body of the loop of \<open>findSpecMatch\<close>: the score of one spec.\<close>

definition specScore :: "Services \<Rightarrow> PythonInterpreter option \<Rightarrow> JupyterKernelSpec \<Rightarrow> int" where
  "specScore env info spec =
     (let score0 =
            (if length (spec_path spec) > 0 \<and> info \<noteq> None
                \<and> Some (spec_path spec) = map_option interpreter_path info
             then 10 else 0)
      in if toLocaleLowerCase (spec_language spec) = ''python'' then
           (case info of
              None \<Rightarrow> score0 + 1
            | Some i \<Rightarrow>
                if length (spec_path spec) > 0 \<and> pathExists env (spec_path spec) then
                  (case getInterpreterDetails env (spec_path spec) of
                     None \<Rightarrow> score0 + 1
                   | Some details \<Rightarrow> score0 + 1 + versionPoints details i)
                else if toLocaleLowerCase (spec_path spec) = ''python'' then
                  score0 + 1 + namePoints (spec_name spec) i
                else score0 + 1)
         else score0)"

fun findSpecLoop ::
  "(JupyterKernelSpec \<Rightarrow> int) \<Rightarrow> JupyterKernelSpec list \<Rightarrow> int \<times> JupyterKernelSpec option \<Rightarrow>
   int \<times> JupyterKernelSpec option" where
  "findSpecLoop score [] best = best"
| "findSpecLoop score (spec # specs) (bestScore, bestSpec) =
     findSpecLoop score specs
       (if score spec > bestScore then (score spec, Some spec) else (bestScore, bestSpec))"

definition findSpecMatch :: "Services \<Rightarrow> JupyterKernelSpec list \<Rightarrow> JupyterKernelSpec option" where
  "findSpecMatch env specs =
     (case findSpecLoop (specScore env (getInterpreterInformation env)) specs (0, None) of
        (bestScore, Some bestSpec) \<Rightarrow> Some bestSpec
      | (bestScore, None) \<Rightarrow> (case specs of [] \<Rightarrow> None | first # _ \<Rightarrow> Some first))"

text \<open>
  The scoring in the words of the specification, for comparison: ten points for the
  path of the target, one for the language, and the points for the version.
\<close>

definition statedSpecScore ::
  "Services \<Rightarrow> PythonInterpreter option \<Rightarrow> JupyterKernelSpec \<Rightarrow> int" where
  "statedSpecScore env info spec =
     (if Some (spec_path spec) = map_option interpreter_path info then 10 else 0)
     + (if toLocaleLowerCase (spec_language spec) = ''python'' then 1 else 0)
     + (case (getInterpreterDetails env (spec_path spec), info) of
          (Some details, Some i) \<Rightarrow> versionPoints details i
        | _ \<Rightarrow> 0)"

subsection \<open>Commands\<close>

text \<open>
  A \<open>JupyterCommand\<close> is the program and the arguments that were found to run. The
  class keeps the commands it has found by name, the path of a \<open>jupyter\<close> program found
  on the search paths, the spec files it created and the interpreter it chose for
  notebooks. \<open>executed\<close> logs every process the class starts through the services and
  \<open>unlinked\<close> every file it deletes.
\<close>

record JupyterCommand =
  exe :: string
  requiredArgs :: "string list"

record JupyterExecution =
  commands :: "(string, JupyterCommand) jsmap"
  jupyterPath :: "string option"
  createdSpecs :: "string list"
  usablePythonInterpreter :: "PythonInterpreter option"
  executed :: "(string \<times> string list) list"
  unlinked :: "string list"

definition newJupyterExecution :: JupyterExecution where
  "newJupyterExecution =
     \<lparr> commands = [], jupyterPath = None, createdSpecs = [], usablePythonInterpreter = None,
       executed = [], unlinked = [] \<rparr>"

text \<open>A string that is \<open>undefined\<close> or empty is false in a condition.\<close>

definition truthyString :: "string option \<Rightarrow> bool" where
  "truthyString v = (case v of None \<Rightarrow> False | Some str \<Rightarrow> str \<noteq> [])"

text \<open>What a callback returns: \<open>None\<close> is \<open>undefined\<close>, which is false in a condition.\<close>

definition truthyValue :: "bool option \<Rightarrow> bool" where
  "truthyValue v = (case v of None \<Rightarrow> False | Some b \<Rightarrow> b)"

text \<open>
  \<open>doesModuleExist\<close>: the body of the \<open>try\<close> is \<open>moduleRuns\<close>, false when the process
  throws or writes to \<open>stderr\<close>.
\<close>

definition moduleRuns :: "Services \<Rightarrow> string \<Rightarrow> PythonInterpreter \<Rightarrow> bool" where
  "moduleRuns env moduleName interpreter =
     (let actualModule = (if moduleName = KernelCreateCommand then moduleName else ''jupyter'');
          args = (if moduleName = KernelCreateCommand then [''--version'']
                  else [moduleName, ''--version''])
      in case execModule env (interpreter_path interpreter) actualModule args of
           None \<Rightarrow> False
         | Some result \<Rightarrow> \<not> truthyString (stderr result))"

definition doesModuleExist ::
  "Services \<Rightarrow> string \<Rightarrow> PythonInterpreter option \<Rightarrow> JupyterExecution \<Rightarrow>
   bool \<times> JupyterExecution" where
  "doesModuleExist env moduleName interpreter s =
     (case interpreter of
        None \<Rightarrow> (False, s)
      | Some i \<Rightarrow>
          (moduleRuns env moduleName i,
           s\<lparr> executed := executed s
                 @ [(interpreter_path i,
                     if moduleName = KernelCreateCommand then [''-m'', moduleName, ''--version'']
                     else [''-m'', ''jupyter'', moduleName, ''--version''])] \<rparr>))"

definition findInterpreterCommand ::
  "Services \<Rightarrow> string \<Rightarrow> PythonInterpreter option \<Rightarrow> JupyterExecution \<Rightarrow>
   JupyterCommand option \<times> JupyterExecution" where
  "findInterpreterCommand env command interpreter s =
     (case interpreter of
        None \<Rightarrow> (None, s)
      | Some i \<Rightarrow>
          (case doesModuleExist env command (Some i) s of
             (True, s1) \<Rightarrow>
               (Some \<lparr> exe = interpreter_path i,
                       requiredArgs = (if command = KernelCreateCommand then [''-m'', command]
                                       else [''-m'', ''jupyter'', command]) \<rparr>, s1)
           | (False, s1) \<Rightarrow> (None, s1)))"

text \<open>
  \<open>CheckJupyterRegEx\<close> is \<open>/^jupyter?$/\<close>, on Windows \<open>/^jupyter?\.exe$/\<close>: the last
  \<open>r\<close> is optional. \<open>basename\<close> is the last segment of a path.
\<close>

definition CheckJupyterRegEx_test :: "bool \<Rightarrow> string \<Rightarrow> bool" where
  "CheckJupyterRegEx_test windows name =
     (if windows then name = ''jupyte.exe'' \<or> name = ''jupyter.exe''
      else name = ''jupyte'' \<or> name = ''jupyter'')"

definition basename :: "string \<Rightarrow> string" where
  "basename p =
     rev (takeWhile (\<lambda>c. c \<noteq> CHR ''/'') (dropWhile (\<lambda>c. c = CHR ''/'') (rev p)))"

text \<open>
  The callback that \<open>lookForJupyterInDirectory\<close> passes to \<open>filter\<close> has a block body:
  it evaluates the test and returns nothing.
\<close>

definition lookForJupyterCallback :: "bool \<Rightarrow> string \<Rightarrow> bool option" where
  "lookForJupyterCallback windows entry =
     (let tested = CheckJupyterRegEx_test windows (basename entry) in None)"

definition lookForJupyterInDirectory :: "Services \<Rightarrow> string \<Rightarrow> string list" where
  "lookForJupyterInDirectory env pathToCheck =
     (case fsReaddirAsync env pathToCheck of
        None \<Rightarrow> []
      | Some subdirs \<Rightarrow>
          filter (\<lambda>entry. truthyValue (lookForJupyterCallback (IS_WINDOWS env) entry)) subdirs)"

fun searchPathsLoop :: "Services \<Rightarrow> string list \<Rightarrow> string option \<Rightarrow> string option" where
  "searchPathsLoop env [] found = found"
| "searchPathsLoop env (p # paths) found =
     (if truthyString found then found
      else (case lookForJupyterInDirectory env p of
              [] \<Rightarrow> searchPathsLoop env paths found
            | first # _ \<Rightarrow> searchPathsLoop env paths (Some first)))"

definition searchPathsForJupyter ::
  "Services \<Rightarrow> JupyterExecution \<Rightarrow> string option \<times> JupyterExecution" where
  "searchPathsForJupyter env s =
     (if \<not> truthyString (jupyterPath s) then
        (let found = searchPathsLoop env (getSearchPaths env) (jupyterPath s)
         in (found, s\<lparr> jupyterPath := found \<rparr>))
      else (jupyterPath s, s))"

text \<open>
  \<open>doesJupyterCommandExist\<close> spreads the command, a string, into the argument list:
  one argument for each character.
\<close>

definition doesJupyterCommandExist ::
  "Services \<Rightarrow> string \<Rightarrow> JupyterExecution \<Rightarrow> bool \<times> JupyterExecution" where
  "doesJupyterCommandExist env command s =
     (let args = (if command \<noteq> [] then map (\<lambda>c. [c]) command else []);
          s1 = s\<lparr> executed := executed s @ [(''jupyter'', args)] \<rparr>
      in case exec env ''jupyter'' args of
           None \<Rightarrow> (False, s1)
         | Some result \<Rightarrow> (\<not> truthyString (stderr result), s1))"

definition findPathCommand ::
  "Services \<Rightarrow> string \<Rightarrow> JupyterExecution \<Rightarrow> JupyterCommand option \<times> JupyterExecution" where
  "findPathCommand env command s =
     (case doesJupyterCommandExist env command s of
        (False, s1) \<Rightarrow> (None, s1)
      | (True, s1) \<Rightarrow>
          (case searchPathsForJupyter env s1 of
             (found, s2) \<Rightarrow>
               (case found of
                  None \<Rightarrow> (None, s2)
                | Some p \<Rightarrow>
                    if p \<noteq> [] then (Some \<lparr> exe = p, requiredArgs = [command] \<rparr>, s2)
                    else (None, s2))))"

text \<open>\<open>current !== all[i]\<close>: the two are different objects.\<close>

definition differentObject :: "PythonInterpreter option \<Rightarrow> PythonInterpreter \<Rightarrow> bool" where
  "differentObject current other =
     (case current of None \<Rightarrow> True | Some c \<Rightarrow> objectId c \<noteq> objectId other)"

fun findInOtherInterpreters ::
  "Services \<Rightarrow> string \<Rightarrow> PythonInterpreter option \<Rightarrow> PythonInterpreter list \<Rightarrow>
   JupyterCommand option \<times> JupyterExecution \<Rightarrow> JupyterCommand option \<times> JupyterExecution" where
  "findInOtherInterpreters env command current [] (found, s) = (found, s)"
| "findInOtherInterpreters env command current (other # rest) (found, s) =
     (if found \<noteq> None then (found, s)
      else if differentObject current other then
        findInOtherInterpreters env command current rest
          (findInterpreterCommand env command (Some other) s)
      else findInOtherInterpreters env command current rest (found, s))"

definition findBestCommand ::
  "Services \<Rightarrow> string \<Rightarrow> JupyterExecution \<Rightarrow> JupyterCommand option \<times> JupyterExecution" where
  "findBestCommand env command s =
     (if \<not> map_has (commands s) command then
        (let current = getActiveInterpreter env;
             r1 = findInterpreterCommand env command current s;
             r2 = (if fst r1 = None
                   then findInOtherInterpreters env command current (getInterpreters env) r1
                   else r1);
             r3 = (if fst r2 = None then findPathCommand env command (snd r2) else r2);
             s4 = (case fst r3 of
                     None \<Rightarrow> snd r3
                   | Some found \<Rightarrow>
                       (snd r3)\<lparr> commands := map_set (commands (snd r3)) command found \<rparr>)
         in (map_get (commands s4) command, s4))
      else (map_get (commands s) command, s))"



text \<open>
  \<open>dispose\<close> deletes the created specs one after the other; when a deletion fails the
  promise is rejected there (\<open>False\<close>) and the rest of the body does not run.
  \<open>onSettingsChanged\<close>, the handler of a change of the active interpreter, is \<open>dispose\<close>.
\<close>

fun deleteSpecs :: "Services \<Rightarrow> string list \<Rightarrow> JupyterExecution \<Rightarrow> bool \<times> JupyterExecution" where
  "deleteSpecs env [] s = (True, s)"
| "deleteSpecs env (file # rest) s =
     (if unlink env file then deleteSpecs env rest (s\<lparr> unlinked := unlinked s @ [file] \<rparr>)
      else (False, s))"

definition dispose :: "Services \<Rightarrow> JupyterExecution \<Rightarrow> bool \<times> JupyterExecution" where
  "dispose env s =
     (case deleteSpecs env (createdSpecs s) (s\<lparr> createdSpecs := [] \<rparr>) of
        (True, s1) \<Rightarrow> (True, s1\<lparr> usablePythonInterpreter := None \<rparr>)
      | (False, s1) \<Rightarrow> (False, s1))"

definition onSettingsChanged :: "Services \<Rightarrow> JupyterExecution \<Rightarrow> bool \<times> JupyterExecution" where
  "onSettingsChanged env s = dispose env s"

subsection \<open>\<open>getUsableJupyterPython\<close>\<close>





text \<open>Sample data for the concrete instances below.\<close>

definition python38 :: PythonVersion where
  "python38 = \<lparr> raw = ''3.8.3'', major = 3, minor = 8, patch = 3, build = [],
                 prerelease = [] \<rparr>"

definition usr_python3 :: PartialPythonEnvironment where
  "usr_python3 =
     \<lparr> path = ''/usr/bin/python3'', envType = None, envVersion = None,
       envArchitecture = None, envName = None \<rparr>"

definition opt_py2 :: PartialPythonEnvironment where
  "opt_py2 =
     \<lparr> path = ''/opt/py2'', envType = Some Global, envVersion = None,
       envArchitecture = None, envName = None \<rparr>"




text \<open>Whenever a map holds a record, or a handler of a call that did not wait is pending,
  the deferred is resolved.\<close>

definition populated_resolved :: "EnvironmentsStorage \<Rightarrow> bool" where
  "populated_resolved s =
     ((partialInfoEnvironmentMap s \<noteq> [] \<or> completeInfoEnvironmentMap s \<noteq> []
        \<or> (\<exists>i. (i, False) \<in> set (storeCompleteInfoPending s)))
      \<longrightarrow> didEffortToPopulateStorageSucceed s \<noteq> None)"

text \<open>While nothing is removed: a deferred resolved with true means a record is stored, and
  an empty list was returned only under a deferred resolved with false.\<close>

definition nothing_lost :: "EnvironmentsStorage \<Rightarrow> bool" where
  "nothing_lost s =
     ((didEffortToPopulateStorageSucceed s = Some True \<longrightarrow>
         partialInfoEnvironmentMap s \<noteq> [] \<or> completeInfoEnvironmentMap s \<noteq> [])
      \<and> ([] \<in> set (returned s) \<longrightarrow> didEffortToPopulateStorageSucceed s = Some False))"

definition target383 :: PythonInterpreter where
  "target383 =
     \<lparr> objectId = 0, interpreter_path = ''/usr/bin/python3'',
       version_info = (3, 8, 3, ''final''), interpreter_type = System \<rparr>"

definition usr_python3_spec :: JupyterKernelSpec where
  "usr_python3_spec =
     \<lparr> spec_name = ''python3'', spec_language = ''python'', spec_path = ''/usr/bin/python3'',
       specFile = None \<rparr>"

definition opt_py2_spec :: JupyterKernelSpec where
  "opt_py2_spec =
     \<lparr> spec_name = ''python2'', spec_language = ''python'', spec_path = ''/opt/py2'',
       specFile = None \<rparr>"

text \<open>A kernel that is started through the Python interpreter and declares another language.\<close>

definition spark_spec :: JupyterKernelSpec where
  "spark_spec =
     \<lparr> spec_name = ''sparkkernel'', spec_language = ''scala'', spec_path = ''/usr/bin/python3'',
       specFile = None \<rparr>"

text \<open>A kernel of another language with its own program.\<close>

definition julia_spec :: JupyterKernelSpec where
  "julia_spec =
     \<lparr> spec_name = ''julia-1.0'', spec_language = ''julia'', spec_path = ''/usr/bin/julia'',
       specFile = None \<rparr>"

text \<open>A kernel whose command is the bare word \<open>python\<close>, named after the major version.\<close>

definition bare_python3_spec :: JupyterKernelSpec where
  "bare_python3_spec =
     \<lparr> spec_name = ''python3'', spec_language = ''python'', spec_path = ''python'',
       specFile = None \<rparr>"

definition only_usr_python3_exists :: "string \<Rightarrow> bool" where
  "only_usr_python3_exists p = (p = ''/usr/bin/python3'')"

definition only_usr_python3_details :: "string \<Rightarrow> PythonInterpreter option" where
  "only_usr_python3_details p = (if p = ''/usr/bin/python3'' then Some target383 else None)"

definition nothing_runs :: "string \<Rightarrow> string list \<Rightarrow> ExecutionResult option" where
  "nothing_runs file args = None"

definition no_module_runs :: "string \<Rightarrow> string \<Rightarrow> string list \<Rightarrow> ExecutionResult option" where
  "no_module_runs pythonPath moduleName args = None"

definition no_directory :: "string \<Rightarrow> string list option" where
  "no_directory dir = None"

definition every_unlink_succeeds :: "string \<Rightarrow> bool" where
  "every_unlink_succeeds file = True"

definition scoring_services :: Services where
  "scoring_services =
     \<lparr> getActiveInterpreter = Some target383, getInterpreters = [target383],
       getInterpreterInformation = Some target383,
       getInterpreterDetails = only_usr_python3_details,
       pathExists = only_usr_python3_exists,
       execModule = no_module_runs, exec = nothing_runs, getSearchPaths = [],
       fsReaddirAsync = no_directory, unlink = every_unlink_succeeds, IS_WINDOWS = False \<rparr>"

definition env_a :: PythonInterpreter where
  "env_a =
     \<lparr> objectId = 1, interpreter_path = ''/envs/a/bin/python'',
       version_info = (3, 8, 3, ''final''), interpreter_type = Venv \<rparr>"

definition env_b :: PythonInterpreter where
  "env_b =
     \<lparr> objectId = 2, interpreter_path = ''/envs/b/bin/python'',
       version_info = (3, 7, 0, ''final''), interpreter_type = Venv \<rparr>"


definition ran_clean :: ExecutionResult where
  "ran_clean = \<lparr> stdout = ''1.0.0'', stderr = None \<rparr>"

definition every_module_runs :: "string \<Rightarrow> string \<Rightarrow> string list \<Rightarrow> ExecutionResult option" where
  "every_module_runs pythonPath moduleName args = Some ran_clean"



definition jupyter_runs :: "string \<Rightarrow> string list \<Rightarrow> ExecutionResult option" where
  "jupyter_runs file args = (if file = ''jupyter'' then Some ran_clean else None)"

definition usr_local_bin :: "string \<Rightarrow> string list option" where
  "usr_local_bin dir =
     (if dir = ''/usr/local/bin'' then Some [''jupyter'', ''python3''] else None)"

text \<open>Every interpreter runs every module; the active interpreter is \<open>env_a\<close>.\<close>

definition services_active_a :: Services where
  "services_active_a =
     \<lparr> getActiveInterpreter = Some env_a, getInterpreters = [env_a, env_b],
       getInterpreterInformation = Some env_a,
       getInterpreterDetails = only_usr_python3_details,
       pathExists = only_usr_python3_exists,
       execModule = every_module_runs, exec = nothing_runs, getSearchPaths = [],
       fsReaddirAsync = no_directory, unlink = every_unlink_succeeds, IS_WINDOWS = False \<rparr>"

text \<open>The same machine after the user has made \<open>env_b\<close> the active interpreter.\<close>

definition services_active_b :: Services where
  "services_active_b =
     services_active_a\<lparr> getActiveInterpreter := Some env_b, getInterpreterInformation := Some env_b \<rparr>"

text \<open>
  No interpreter has Jupyter, but \<open>jupyter\<close> runs from the shell and the search path
  \<open>/usr/local/bin\<close> holds the program.
\<close>

definition services_jupyter_on_path :: Services where
  "services_jupyter_on_path =
     \<lparr> getActiveInterpreter = Some env_a, getInterpreters = [env_a, env_b],
       getInterpreterInformation = Some env_a,
       getInterpreterDetails = only_usr_python3_details,
       pathExists = only_usr_python3_exists,
       execModule = no_module_runs, exec = jupyter_runs, getSearchPaths = [''/usr/local/bin''],
       fsReaddirAsync = usr_local_bin, unlink = every_unlink_succeeds, IS_WINDOWS = False \<rparr>"






definition python38_probe :: InterpreterInformation where
  "python38_probe = \<lparr> info_architecture = x64, info_version = Some python38 \<rparr>"

definition gone_python :: PartialPythonEnvironment where
  "gone_python =
     \<lparr> path = ''/gone/python'', envType = None, envVersion = None,
       envArchitecture = None, envName = None \<rparr>"

definition everyFileExists :: "string \<Rightarrow> bool" where
  "everyFileExists p = True"

definition noFileExists :: "string \<Rightarrow> bool" where
  "noFileExists p = False"





definition enriched_run :: "event list" where
  "enriched_run = [AddPartialInfo usr_python3 None, EnrichmentResolved 0 (Some python38_probe)]"

definition failed_probe_run :: "event list" where
  "failed_probe_run =
     [AddPartialInfo usr_python3 None, EnrichmentResolved 0 None,
      GetEnvironmentsCalled, GetEnvironmentsReturns]"

definition stale_record_run :: "event list" where
  "stale_record_run = [GetEnvironmentsCalled, GetEnvironmentsReturns]"




definition complete_info_options :: GetEnvironmentLocatorOptions where
  "complete_info_options =
     \<lparr> ignoreCache = None, getAllEnvironments = None,
       getCompleteInfoForAllEnvironments = Some True \<rparr>"

definition awaited_probe_fails :: "event list" where
  "awaited_probe_fails =
     [AddPartialInfo usr_python3 (Some complete_info_options), EnrichmentResolved 0 None,
      GetEnvironmentsCalled, GetEnvironmentsReturns]"

definition discovered_run :: "event list" where
  "discovered_run = [AddPartialInfo usr_python3 None]"

definition nothing_found_run :: "event list" where
  "nothing_found_run = [GetEnvironmentsCalled, AllEnvironmentsStored, GetEnvironmentsReturns]"

definition waiting_run :: "event list" where
  "waiting_run = [GetEnvironmentsCalled, AllEnvironmentsStored]"

section \<open>Properties of the environment information service\<close>














section \<open>Properties of the environments storage\<close>

lemma path_updateEnvironment [simp]: "path (updateEnvironment a b) = path a"
  by (simp add: updateEnvironment_def)

lemma mergeInto_paths: "set (map path (mergeInto acc e)) = insert (path e) (set (map path acc))"
  by (induction acc) auto

lemma foldl_mergeInto_paths:
  "set (map path (foldl mergeInto acc xs)) = set (map path acc) \<union> set (map path xs)"
proof (induction xs arbitrary: acc)
  case Nil
  then show ?case by simp
next
  case (Cons x xs)
  have "set (map path (foldl mergeInto (mergeInto acc x) xs)) =
        set (map path (mergeInto acc x)) \<union> set (map path xs)"
    by (rule Cons.IH)
  then show ?case
    using mergeInto_paths [of acc x] by auto
qed

lemma mergeEnvironments_paths:
  "set (map path (mergeEnvironments xs)) = set (map path xs)"
  using foldl_mergeInto_paths [of "[]" xs] by (simp add: mergeEnvironments_def)

lemma mergeEnvironments_Nil_iff: "mergeEnvironments xs = [] \<longleftrightarrow> xs = []"
proof -
  have "set (map path (mergeEnvironments xs)) = {} \<longleftrightarrow> set (map path xs) = {}"
    by (simp only: mergeEnvironments_paths)
  then show ?thesis by simp
qed

lemma mergeEnvironments_pair:
  "mergeEnvironments [a, b] = (if path a = path b then [updateEnvironment a b] else [a, b])"
  by (simp add: mergeEnvironments_def)

lemma map_has_keys: "map_has m k \<longleftrightarrow> k \<in> set (map_keys m)"
  by (simp add: map_has_def map_keys_def map_of_eq_None_iff)

lemma keys_match_set: "keys_match m \<longleftrightarrow> (\<forall>(k, e) \<in> set m. path e = k)"
  by (simp add: keys_match_def list_all_iff)

lemma keys_match_get: "keys_match m \<Longrightarrow> map_get m k = Some e \<Longrightarrow> path e = k"
  by (auto simp: keys_match_set map_get_def dest: map_of_SomeD)

lemma set_update_subset: "set (AList.update k v m) \<subseteq> insert (k, v) (set m)"
  by (induction m) auto

lemma keys_match_set_entry: "keys_match m \<Longrightarrow> path e = k \<Longrightarrow> keys_match (map_set m k e)"
  using set_update_subset [of k e m] by (auto simp: keys_match_set map_set_def)

lemma set_delete_subset: "set (AList.delete k m) \<subseteq> set m"
  by (induction m) auto

lemma keys_match_delete: "keys_match m \<Longrightarrow> keys_match (map_delete m k)"
  using set_delete_subset [of k m] by (auto simp: keys_match_set map_delete_def)

lemma keys_map_set: "set (map_keys (map_set m k v)) = insert k (set (map_keys m))"
  using dom_update [of k v m] by (simp add: map_keys_def map_set_def)

lemma keys_map_delete: "set (map_keys (map_delete m k)) = set (map_keys m) - {k}"
  by (simp add: map_keys_def map_delete_def delete_keys)

lemma distinct_map_set: "distinct (map_keys (map_set m k v)) = distinct (map_keys m)"
  by (auto simp: map_keys_def map_set_def update_keys)

lemma distinct_map_delete: "distinct (map_keys m) \<Longrightarrow> distinct (map_keys (map_delete m k))"
  by (simp add: map_keys_def map_delete_def distinct_delete)

lemma keys_match_paths: "keys_match m \<Longrightarrow> map path (map_values m) = map_keys m"
  by (induction m) (auto simp: keys_match_def map_values_def map_keys_def)

lemma storage_wf_iff:
  "storage_wf s \<longleftrightarrow>
     distinct (map_keys (partialInfoEnvironmentMap s))
     \<and> distinct (map_keys (completeInfoEnvironmentMap s))
     \<and> keys_match (partialInfoEnvironmentMap s)
     \<and> keys_match (completeInfoEnvironmentMap s)
     \<and> set (map_keys (partialInfoEnvironmentMap s))
         \<inter> set (map_keys (completeInfoEnvironmentMap s)) = {}"
  by (auto simp: storage_wf_def list_all_iff map_has_keys)

lemma addPartialInfo_noop:
  "map_has (completeInfoEnvironmentMap s) (N (path e)) \<Longrightarrow> addPartialInfo N e opts s = s"
  by (simp add: addPartialInfo_def resolvePossibleSymlinkToRealPath_def Let_def)

lemma addPartialInfo_wf:
  assumes "storage_wf s"
  shows "storage_wf (addPartialInfo N e opts s)"
proof (cases "map_has (completeInfoEnvironmentMap s) (N (path e))")
  case True
  then show ?thesis using assms by (simp add: addPartialInfo_noop)
next
  case False
  define p where "p = N (path e)"
  define i where "i = (case map_get (partialInfoEnvironmentMap s) p of
                     None \<Rightarrow> e\<lparr>path := p\<rparr>
                   | Some storedValue \<Rightarrow>
                       (case mergeEnvironments [storedValue, e\<lparr>path := p\<rparr>] of
                          merged # _ \<Rightarrow> merged
                        | [] \<Rightarrow> e\<lparr>path := p\<rparr>))"
  have pi: "path i = p"
    using assms
    by (auto simp: i_def storage_wf_iff mergeEnvironments_pair dest: keys_match_get
        split: option.splits)
  have notin: "p \<notin> set (map_keys (completeInfoEnvironmentMap s))"
    using False by (simp add: map_has_keys p_def)
  show ?thesis
  proof (cases "wantsCompleteInfo opts")
    case True
    then have "partialInfoEnvironmentMap (addPartialInfo N e opts s) = partialInfoEnvironmentMap s"
      "completeInfoEnvironmentMap (addPartialInfo N e opts s) = completeInfoEnvironmentMap s"
      using False
      by (simp_all add: addPartialInfo_def resolvePossibleSymlinkToRealPath_def Let_def)
    then show ?thesis using assms by (simp add: storage_wf_def)
  next
    case nw: False
    have "partialInfoEnvironmentMap (addPartialInfo N e opts s)
            = map_set (partialInfoEnvironmentMap s) p i"
      "completeInfoEnvironmentMap (addPartialInfo N e opts s) = completeInfoEnvironmentMap s"
      using False nw pi
      by (simp_all add: addPartialInfo_def resolvePossibleSymlinkToRealPath_def Let_def
          p_def [symmetric] i_def [symmetric])
    then show ?thesis
      using assms pi notin
      by (simp add: storage_wf_iff distinct_map_set keys_match_set_entry keys_map_set)
  qed
qed


lemma defaultWorker_path:
  "defaultWorker g p = Some i \<Longrightarrow> interpreterPath i = p"
  by (auto simp: defaultWorker_def split: option.splits)

lemma storeCompleteInfo_maps:
  "partialInfoEnvironmentMap (storeCompleteInfo i a info s)
     = map_delete (partialInfoEnvironmentMap s) (path i)"
  "completeInfoEnvironmentMap (storeCompleteInfo i a info s)
     = (case info of None \<Rightarrow> completeInfoEnvironmentMap s
        | Some x \<Rightarrow> map_set (completeInfoEnvironmentMap s) (path i)
                     (if interpreterPath x = path i then updateEnvironment (asEnvironment x) i
                      else asEnvironment x))"
  by (auto simp: storeCompleteInfo_def Let_def mergeEnvironments_pair asEnvironment_def
      map_has_def map_delete_def map_of_eq_None_iff
      split: option.splits)

lemma storeCompleteInfo_wf:
  assumes "storage_wf s" and "\<And>x. info = Some x \<Longrightarrow> interpreterPath x = path i"
  shows "storage_wf (storeCompleteInfo i a info s)"
proof (cases info)
  case None
  then show ?thesis
    using assms(1)
    by (auto simp: storage_wf_iff storeCompleteInfo_maps distinct_map_delete keys_match_delete
        keys_map_delete)
next
  case (Some x)
  then have "interpreterPath x = path i" by (rule assms(2))
  then show ?thesis
    using assms(1) Some
    by (auto simp: storage_wf_iff storeCompleteInfo_maps distinct_map_delete keys_match_delete
        keys_map_delete distinct_map_set keys_map_set asEnvironment_def
        intro!: keys_match_set_entry)
qed

lemma validityResolved_wf:
  assumes "storage_wf s"
  shows "storage_wf (validityResolved F c s)"
proof -
  obtain w k e where c: "c = (w, k, e)" by (cases c) auto
  show ?thesis
    using assms unfolding c
    by (cases w)
      (auto simp: validityResolved_def storage_wf_iff distinct_map_delete keys_match_delete
        keys_map_delete)
qed

lemma storage_wf_cong:
  "partialInfoEnvironmentMap t = partialInfoEnvironmentMap s \<Longrightarrow>
   completeInfoEnvironmentMap t = completeInfoEnvironmentMap s \<Longrightarrow>
   storage_wf t = storage_wf s"
  by (simp add: storage_wf_def)

lemma step_wf:
  assumes "storage_wf s"
  shows "storage_wf (step N F ev s)"
proof (cases ev)
  case (AddPartialInfo e opts)
  then show ?thesis using assms by (simp add: addPartialInfo_wf)
next
  case (EnrichmentResolved n probe)
  show ?thesis
  proof (cases "n < length (storeCompleteInfoPending s)")
    case True
    obtain i a where ia: "storeCompleteInfoPending s ! n = (i, a)"
      by (cases "storeCompleteInfoPending s ! n") auto
    have "storage_wf (s\<lparr>storeCompleteInfoPending := dropNth n (storeCompleteInfoPending s)\<rparr>)"
      using assms by (simp add: storage_wf_def)
    then have "storage_wf (storeCompleteInfo i a (defaultWorker (\<lambda>_. probe) (path i))
        (s\<lparr>storeCompleteInfoPending := dropNth n (storeCompleteInfoPending s)\<rparr>))"
      by (rule storeCompleteInfo_wf) (rule defaultWorker_path)
    then show ?thesis
      using True ia EnrichmentResolved by simp
  next
    case False
    then show ?thesis using assms EnrichmentResolved by simp
  qed
next
  case GetEnvironmentsCalled
  then show ?thesis
    using assms
    by (simp add: getEnvironments_called_def removeInvalidEntriesFromStorage_def storage_wf_def
        Let_def)
next
  case (ValidityResolved n)
  show ?thesis
  proof (cases "n < length (validityPending s)")
    case True
    have "storage_wf (s\<lparr>validityPending := dropNth n (validityPending s)\<rparr>)"
      using assms by (simp add: storage_wf_def)
    then have "storage_wf (validityResolved F (validityPending s ! n)
        (s\<lparr>validityPending := dropNth n (validityPending s)\<rparr>))"
      by (rule validityResolved_wf)
    then show ?thesis using True ValidityResolved by simp
  next
    case False
    then show ?thesis using assms ValidityResolved by simp
  qed
next
  case AllEnvironmentsStored
  then show ?thesis
    using assms by (simp add: allEnvironmentsStored_def storage_wf_def)
next
  case GetEnvironmentsReturns
  then show ?thesis
    using assms by (simp add: getEnvironments_returns_def storage_wf_def)
qed

lemma run_wf: "storage_wf s \<Longrightarrow> storage_wf (run N F evs s)"
  by (induction evs arbitrary: s) (simp_all add: step_wf)

text \<open>
  Claim C2. From a well-formed storage (the empty one, or maps persisted by an earlier
  run), after any sequence of events: no key occurs twice in the Partial map, none
  occurs twice in the Complete map, each map holds at most one record of a given path,
  no path is in both maps (so a path that enters the Complete map has left the Partial
  map in the same step), and \<open>addPartialInfo\<close> for a path that has a Complete record
  returns the storage as it is: both maps, the list of enrichment requests, the
  pending handlers, the change events and the deferred are unchanged.
\<close>

theorem storage_one_record_per_path:
  assumes "storage_wf s0"
  shows "let s = run N F evs s0 in
           distinct (map_keys (partialInfoEnvironmentMap s))
           \<and> distinct (map_keys (completeInfoEnvironmentMap s))
           \<and> distinct (map path (map_values (partialInfoEnvironmentMap s)))
           \<and> distinct (map path (map_values (completeInfoEnvironmentMap s)))
           \<and> (\<forall>p. map_has (completeInfoEnvironmentMap s) p
                  \<longrightarrow> \<not> map_has (partialInfoEnvironmentMap s) p)
           \<and> (\<forall>e opts. map_has (completeInfoEnvironmentMap s) (N (path e))
                  \<longrightarrow> addPartialInfo N e opts s = s)"
proof -
  have "storage_wf (run N F evs s0)" using assms by (rule run_wf)
  then show ?thesis
    by (auto simp: Let_def storage_wf_iff map_has_keys addPartialInfo_noop keys_match_paths)
qed

lemma items_Nil_iff:
  "getEnvironments_items s = [] \<longleftrightarrow>
     partialInfoEnvironmentMap s = [] \<and> completeInfoEnvironmentMap s = []"
  by (simp add: getEnvironments_items_def mergeEnvironments_Nil_iff map_values_def)










lemma resolveDeferred_Some [simp]: "resolveDeferred v (Some b) = Some b"
  by (simp add: resolveDeferred_def)

lemma resolveDeferred_not_None [simp]: "resolveDeferred v d \<noteq> None"
  by (simp add: resolveDeferred_def split: option.splits)

lemma resolveDeferred_True_False [simp]: "resolveDeferred True d = Some False \<longleftrightarrow> d = Some False"
  by (simp add: resolveDeferred_def split: option.splits)

lemma addPartialInfo_latch:
  "didEffortToPopulateStorageSucceed (addPartialInfo N e opts s) =
     (if map_has (completeInfoEnvironmentMap s) (N (path e)) \<or> wantsCompleteInfo opts
      then didEffortToPopulateStorageSucceed s
      else resolveDeferred True (didEffortToPopulateStorageSucceed s))"
  by (simp add: addPartialInfo_def resolvePossibleSymlinkToRealPath_def Let_def)

lemma storeCompleteInfo_latch:
  "didEffortToPopulateStorageSucceed (storeCompleteInfo i a info s) =
     (if a then resolveDeferred True (didEffortToPopulateStorageSucceed s)
      else didEffortToPopulateStorageSucceed s)"
  by (simp add: storeCompleteInfo_def Let_def split: option.splits list.splits)

lemma validityResolved_latch:
  "didEffortToPopulateStorageSucceed (validityResolved F c s) = didEffortToPopulateStorageSucceed s"
  by (simp add: validityResolved_def split: prod.splits EnvironmentMap.splits)

lemma step_latch_stable:
  "didEffortToPopulateStorageSucceed s = Some b \<Longrightarrow>
   didEffortToPopulateStorageSucceed (step N F ev s) = Some b"
  by (cases ev)
    (auto simp: addPartialInfo_latch storeCompleteInfo_latch validityResolved_latch
      getEnvironments_called_def removeInvalidEntriesFromStorage_def allEnvironmentsStored_def
      getEnvironments_returns_def Let_def split: prod.splits)

lemma step_latch_False:
  "didEffortToPopulateStorageSucceed (step N F ev s) = Some False \<Longrightarrow>
   didEffortToPopulateStorageSucceed s = Some False \<or> ev = AllEnvironmentsStored"
  by (cases ev)
    (auto simp: addPartialInfo_latch storeCompleteInfo_latch validityResolved_latch
      getEnvironments_called_def removeInvalidEntriesFromStorage_def allEnvironmentsStored_def
      getEnvironments_returns_def Let_def split: prod.splits if_splits)

lemma run_latch_stable:
  "didEffortToPopulateStorageSucceed s = Some b \<Longrightarrow>
   didEffortToPopulateStorageSucceed (run N F evs s) = Some b"
  by (induction evs arbitrary: s) (simp_all add: step_latch_stable)

lemma run_latch_False:
  "didEffortToPopulateStorageSucceed (run N F evs s) = Some False \<Longrightarrow>
   didEffortToPopulateStorageSucceed s = Some False \<or> AllEnvironmentsStored \<in> set evs"
proof (induction evs arbitrary: s)
  case Nil
  then show ?case by simp
next
  case (Cons ev evs)
  from Cons.prems
  have "didEffortToPopulateStorageSucceed (run N F evs (step N F ev s)) = Some False" by simp
  then have "didEffortToPopulateStorageSucceed (step N F ev s) = Some False
      \<or> AllEnvironmentsStored \<in> set evs"
    by (rule Cons.IH)
  then show ?case
    using step_latch_False [of N F ev s] by auto
qed

lemma set_dropNth: "set (dropNth n xs) \<subseteq> set xs"
  by (auto simp: dropNth_def dest: in_set_takeD in_set_dropD)

lemma map_delete_Nil [simp]: "map_delete [] k = []"
  by (simp add: map_delete_def)

lemma step_populated_resolved:
  assumes "populated_resolved s"
  shows "populated_resolved (step N F ev s)"
proof (cases ev)
  case (AddPartialInfo e opts)
  show ?thesis
  proof (cases "map_has (completeInfoEnvironmentMap s) (N (path e))")
    case True
    then show ?thesis using assms AddPartialInfo by (simp add: addPartialInfo_noop)
  next
    case False
    show ?thesis
    proof (cases "wantsCompleteInfo opts")
      case True
      then show ?thesis
        using assms AddPartialInfo False
        by (auto simp: populated_resolved_def addPartialInfo_def
            resolvePossibleSymlinkToRealPath_def Let_def)
    next
      case nw: False
      then have "didEffortToPopulateStorageSucceed (addPartialInfo N e opts s) \<noteq> None"
        using False by (simp add: addPartialInfo_latch)
      then show ?thesis using AddPartialInfo by (simp add: populated_resolved_def)
    qed
  qed
next
  case (EnrichmentResolved n probe)
  show ?thesis
  proof (cases "n < length (storeCompleteInfoPending s)")
    case True
    obtain i a where ia: "storeCompleteInfoPending s ! n = (i, a)"
      by (cases "storeCompleteInfoPending s ! n") auto
    have mem: "(i, a) \<in> set (storeCompleteInfoPending s)"
      using True ia by (metis nth_mem)
    define t where "t = s\<lparr>storeCompleteInfoPending := dropNth n (storeCompleteInfoPending s)\<rparr>"
    define u where "u = storeCompleteInfo i a (defaultWorker (\<lambda>_. probe) (path i)) t"
    have st: "step N F ev s = u"
      using True ia EnrichmentResolved by (simp add: t_def u_def)
    have pend: "storeCompleteInfoPending u = dropNth n (storeCompleteInfoPending s)"
      by (simp add: u_def t_def storeCompleteInfo_def Let_def split: option.splits list.splits)
    have latch: "didEffortToPopulateStorageSucceed u =
        (if a then resolveDeferred True (didEffortToPopulateStorageSucceed s)
         else didEffortToPopulateStorageSucceed s)"
      by (simp add: u_def t_def storeCompleteInfo_latch)
    show ?thesis
    proof (cases a)
      case True
      then show ?thesis using latch st by (simp add: populated_resolved_def)
    next
      case False
      then have "didEffortToPopulateStorageSucceed s \<noteq> None"
        using assms mem by (auto simp: populated_resolved_def)
      then show ?thesis using latch False st by (simp add: populated_resolved_def)
    qed
  next
    case False
    then show ?thesis using assms EnrichmentResolved by simp
  qed
next
  case GetEnvironmentsCalled
  then show ?thesis
    using assms
    by (simp add: populated_resolved_def getEnvironments_called_def
        removeInvalidEntriesFromStorage_def Let_def)
next
  case (ValidityResolved n)
  show ?thesis
  proof (cases "n < length (validityPending s)")
    case True
    obtain w k e where c: "validityPending s ! n = (w, k, e)"
      by (cases "validityPending s ! n") auto
    have "didEffortToPopulateStorageSucceed s \<noteq> None"
      if "partialInfoEnvironmentMap (step N F ev s) \<noteq> []
          \<or> completeInfoEnvironmentMap (step N F ev s) \<noteq> []
          \<or> (\<exists>i. (i, False) \<in> set (storeCompleteInfoPending (step N F ev s)))"
      using that assms True c ValidityResolved
      by (cases w) (auto simp: populated_resolved_def validityResolved_def split: if_splits)
    moreover have "didEffortToPopulateStorageSucceed (step N F ev s)
        = didEffortToPopulateStorageSucceed s"
      using True ValidityResolved by (simp add: validityResolved_latch)
    ultimately show ?thesis by (auto simp: populated_resolved_def)
  next
    case False
    then show ?thesis using assms ValidityResolved by simp
  qed
next
  case AllEnvironmentsStored
  then show ?thesis
    using assms by (auto simp: populated_resolved_def allEnvironmentsStored_def)
next
  case GetEnvironmentsReturns
  then show ?thesis
    using assms by (auto simp: populated_resolved_def getEnvironments_returns_def)
qed

lemma run_populated_resolved:
  "populated_resolved s \<Longrightarrow> populated_resolved (run N F evs s)"
  by (induction evs arbitrary: s) (simp_all add: step_populated_resolved)

lemma new_populated_resolved: "populated_resolved (newEnvironmentsStorage pm cm)"
  by (auto simp: populated_resolved_def newEnvironmentsStorage_def map_size_def)

lemma map_set_not_Nil [simp]: "map_set m k v \<noteq> []"
  by (simp add: map_set_def)

lemma step_nothing_lost:
  assumes inv: "nothing_lost s" and files: "\<And>p. F p" and probe: "probeSucceeds ev"
  shows "nothing_lost (step N F ev s)"
proof (cases ev)
  case (AddPartialInfo e opts)
  show ?thesis
  proof (cases "map_has (completeInfoEnvironmentMap s) (N (path e))")
    case True
    then show ?thesis using inv AddPartialInfo by (simp add: addPartialInfo_noop)
  next
    case False
    then show ?thesis
      using inv AddPartialInfo
      by (cases "wantsCompleteInfo opts")
        (auto simp: nothing_lost_def addPartialInfo_def resolvePossibleSymlinkToRealPath_def
          Let_def)
  qed
next
  case (EnrichmentResolved n pr)
  show ?thesis
  proof (cases "n < length (storeCompleteInfoPending s)")
    case True
    obtain i a where ia: "storeCompleteInfoPending s ! n = (i, a)"
      by (cases "storeCompleteInfoPending s ! n") auto
    obtain x where x: "defaultWorker (\<lambda>_. pr) (path i) = Some x"
      using probe EnrichmentResolved
      by (auto simp: defaultWorker_def split: option.splits)
    define t where "t = s\<lparr>storeCompleteInfoPending := dropNth n (storeCompleteInfoPending s)\<rparr>"
    define u where "u = storeCompleteInfo i a (Some x) t"
    have st: "step N F ev s = u"
      using True ia EnrichmentResolved x by (simp add: t_def u_def)
    have c: "completeInfoEnvironmentMap u \<noteq> []"
      by (simp add: u_def storeCompleteInfo_maps)
    have r: "returned u = returned s"
      by (simp add: u_def t_def storeCompleteInfo_def Let_def split: list.splits)
    have l: "didEffortToPopulateStorageSucceed u = Some False
        \<longleftrightarrow> didEffortToPopulateStorageSucceed s = Some False"
      by (simp add: u_def t_def storeCompleteInfo_latch)
    show ?thesis
      using inv c r l unfolding st by (simp add: nothing_lost_def)
  next
    case False
    then show ?thesis using inv EnrichmentResolved by simp
  qed
next
  case GetEnvironmentsCalled
  then show ?thesis
    using inv
    by (simp add: nothing_lost_def getEnvironments_called_def
        removeInvalidEntriesFromStorage_def Let_def)
next
  case (ValidityResolved n)
  show ?thesis
  proof (cases "n < length (validityPending s)")
    case True
    have "validityResolved F (validityPending s ! n) t = t" for t
      using files by (simp add: validityResolved_def isEnvironmentValid_def split: prod.splits)
    then show ?thesis
      using inv True ValidityResolved by (simp add: nothing_lost_def)
  next
    case False
    then show ?thesis using inv ValidityResolved by simp
  qed
next
  case AllEnvironmentsStored
  then show ?thesis
    using inv by (auto simp: nothing_lost_def allEnvironmentsStored_def)
next
  case GetEnvironmentsReturns
  then show ?thesis
    using inv
    by (auto simp: nothing_lost_def getEnvironments_returns_def items_Nil_iff
        eq_commute [of "[]" "getEnvironments_items s"])
qed

lemma run_nothing_lost:
  "nothing_lost s \<Longrightarrow> (\<And>p. F p) \<Longrightarrow> \<forall>ev \<in> set evs. probeSucceeds ev \<Longrightarrow>
   nothing_lost (run N F evs s)"
proof (induction evs arbitrary: s)
  case Nil
  then show ?case by simp
next
  case (Cons ev evs)
  have rest: "\<forall>ev \<in> set evs. probeSucceeds ev"
    using Cons.prems(3) by simp
  have "nothing_lost (step N F ev s)"
    using Cons.prems by (intro step_nothing_lost) simp_all
  then have "nothing_lost (run N F evs (step N F ev s))"
    using Cons.prems(2) rest by (rule Cons.IH)
  then show ?case by simp
qed

lemma new_nothing_lost: "nothing_lost (newEnvironmentsStorage pm cm)"
  by (auto simp: nothing_lost_def newEnvironmentsStorage_def map_size_def)

text \<open>
  What the deferred does guarantee. \<open>getEnvironments\<close> returns the merge of the two maps
  as they are when the deferred is resolved, and not while it is pending; in every
  state reached from a newly constructed storage the deferred is resolved whenever a
  map holds a record. When every file exists and every enrichment probe succeeds, an
  empty list is returned only after the end of discovery resolved the deferred with
  false, from a storage constructed on empty maps.
\<close>

lemma getEnvironments_best_effort:
  "(getEnvironments_items s = [] \<longleftrightarrow>
      partialInfoEnvironmentMap s = [] \<and> completeInfoEnvironmentMap s = [])
   \<and> (waitingCalls s > 0 \<and> didEffortToPopulateStorageSucceed s \<noteq> None \<longrightarrow>
        returned (getEnvironments_returns s) = returned s @ [getEnvironments_items s])
   \<and> (didEffortToPopulateStorageSucceed s = None \<longrightarrow> getEnvironments_returns s = s)
   \<and> (let t = run N F evs (newEnvironmentsStorage pm cm) in
        (partialInfoEnvironmentMap t \<noteq> [] \<or> completeInfoEnvironmentMap t \<noteq> []
           \<longrightarrow> didEffortToPopulateStorageSucceed t \<noteq> None)
        \<and> ((\<forall>p. F p) \<and> (\<forall>ev \<in> set evs. probeSucceeds ev) \<and> [] \<in> set (returned t)
           \<longrightarrow> didEffortToPopulateStorageSucceed t = Some False
               \<and> AllEnvironmentsStored \<in> set evs \<and> pm = [] \<and> cm = []))"
proof -
  define t where "t = run N F evs (newEnvironmentsStorage pm cm)"
  have a: "partialInfoEnvironmentMap t \<noteq> [] \<or> completeInfoEnvironmentMap t \<noteq> []
      \<longrightarrow> didEffortToPopulateStorageSucceed t \<noteq> None"
    using run_populated_resolved [OF new_populated_resolved, of N F evs pm cm]
    by (auto simp: populated_resolved_def t_def)
  have b: "didEffortToPopulateStorageSucceed t = Some False
      \<and> AllEnvironmentsStored \<in> set evs \<and> pm = [] \<and> cm = []"
    if files: "\<forall>p. F p" and probes: "\<forall>ev \<in> set evs. probeSucceeds ev"
      and empty: "[] \<in> set (returned t)"
  proof -
    have "nothing_lost t"
      unfolding t_def using new_nothing_lost files probes by (intro run_nothing_lost) simp_all
    then have f: "didEffortToPopulateStorageSucceed t = Some False"
      using empty by (simp add: nothing_lost_def)
    have init: "didEffortToPopulateStorageSucceed (newEnvironmentsStorage pm cm) \<noteq> Some False"
      by (simp add: newEnvironmentsStorage_def)
    have ev: "AllEnvironmentsStored \<in> set evs"
      using run_latch_False [of N F evs "newEnvironmentsStorage pm cm"] f init
      by (simp add: t_def)
    have "pm = [] \<and> cm = []"
    proof (rule ccontr)
      assume "\<not> (pm = [] \<and> cm = [])"
      then have "didEffortToPopulateStorageSucceed (newEnvironmentsStorage pm cm) = Some True"
        by (auto simp: newEnvironmentsStorage_def map_size_def)
      then have "didEffortToPopulateStorageSucceed t = Some True"
        unfolding t_def by (rule run_latch_stable)
      then show False using f by simp
    qed
    then show ?thesis using f ev by simp
  qed
  show ?thesis
    unfolding t_def [symmetric] Let_def
    using a b by (auto simp: items_Nil_iff getEnvironments_returns_def)
qed

section \<open>Concrete runs of the environments storage\<close>

lemmas storage_eval =
  newEnvironmentsStorage_def addPartialInfo_def usr_python3_def opt_py2_def gone_python_def
  resolvePossibleSymlinkToRealPath_def map_has_def map_get_def
  map_set_def map_delete_def map_size_def map_keys_def map_values_def wantsCompleteInfo_def
  resolveDeferred_def storeCompleteInfo_def defaultWorker_def python38_probe_def python38_def
  dropNth_def mergeEnvironments_def asEnvironment_def updateEnvironment_def orElse_def Let_def
  getEnvironments_called_def getEnvironments_returns_def getEnvironments_items_def
  removeInvalidEntriesFromStorage_def validityResolved_def isEnvironmentValid_def
  allEnvironmentsStored_def everyFileExists_def noFileExists_def

lemma posix_normalize_usr_python3: "posix_normalize ''/usr/bin/python3'' = ''/usr/bin/python3''"
  by (simp add: posix_normalize_def Let_def)

lemma posix_normalize_opt_py2: "posix_normalize ''/opt/py2'' = ''/opt/py2''"
  by (simp add: posix_normalize_def Let_def)

lemma new_wf: "storage_wf (newEnvironmentsStorage [] [])"
  by (simp add: storage_wf_def newEnvironmentsStorage_def keys_match_def map_keys_def)

lemma enriched_run_result:
  "run posix_normalize everyFileExists enriched_run (newEnvironmentsStorage [] []) =
     \<lparr> partialInfoEnvironmentMap = [],
       completeInfoEnvironmentMap =
         [(''/usr/bin/python3'',
           \<lparr> path = ''/usr/bin/python3'', envType = Some Unknown, envVersion = Some python38,
             envArchitecture = Some x64, envName = None \<rparr>)],
       didEffortToPopulateStorageSucceed = Some True, didChangeCollectionFired = 2,
       environmentInfoRequests = [''/usr/bin/python3''], storeCompleteInfoPending = [],
       validityPending = [], waitingCalls = 0, returned = [] \<rparr>"
  by (simp add: enriched_run_def storage_eval posix_normalize_usr_python3)

theorem storage_one_record_per_path_witness:
  "storage_wf (newEnvironmentsStorage [] [])
   \<and> map_has (completeInfoEnvironmentMap
        (run posix_normalize everyFileExists enriched_run (newEnvironmentsStorage [] [])))
        (posix_normalize (path usr_python3))
   \<and> \<not> map_has (partialInfoEnvironmentMap
        (run posix_normalize everyFileExists enriched_run (newEnvironmentsStorage [] [])))
        (posix_normalize (path usr_python3))
   \<and> addPartialInfo posix_normalize usr_python3 None
        (run posix_normalize everyFileExists enriched_run (newEnvironmentsStorage [] []))
       = run posix_normalize everyFileExists enriched_run (newEnvironmentsStorage [] [])
   \<and> distinct (map path (map_values (completeInfoEnvironmentMap
        (run posix_normalize everyFileExists enriched_run (newEnvironmentsStorage [] [])))))"
proof -
  have has: "map_has (completeInfoEnvironmentMap
        (run posix_normalize everyFileExists enriched_run (newEnvironmentsStorage [] [])))
        (posix_normalize (path usr_python3))"
    unfolding enriched_run_result
    by (simp add: map_has_def usr_python3_def posix_normalize_usr_python3)
  show ?thesis
    using storage_one_record_per_path [OF new_wf, of posix_normalize everyFileExists enriched_run]
      has new_wf
    by (simp add: Let_def)
qed

text \<open>
  Claim C1 does not hold of the code. A locator yields \<open>/usr/bin/python3\<close>, its probe
  fails and the handler removes the record again; \<open>getEnvironments\<close>, called now,
  returns the empty list at once, although discovery has not ended and a locator
  yields \<open>/opt/py2\<close> afterwards. The same happens when the record was added with
  \<open>getCompleteInfoForAllEnvironments\<close>: nothing was ever stored, the deferred is
  resolved with true all the same, and the empty list is returned before discovery
  ends.
\<close>

theorem getEnvironments_empty_before_discovery_ends:
  "returned (run posix_normalize everyFileExists failed_probe_run (newEnvironmentsStorage [] []))
     = [[]]
   \<and> AllEnvironmentsStored \<notin> set failed_probe_run
   \<and> getEnvironments_items
       (run posix_normalize everyFileExists (failed_probe_run @ [AddPartialInfo opt_py2 None])
          (newEnvironmentsStorage [] [])) = [opt_py2]
   \<and> returned (run posix_normalize everyFileExists awaited_probe_fails
          (newEnvironmentsStorage [] [])) = [[]]
   \<and> didEffortToPopulateStorageSucceed
        (run posix_normalize everyFileExists awaited_probe_fails (newEnvironmentsStorage [] []))
       = Some True
   \<and> AllEnvironmentsStored \<notin> set awaited_probe_fails"
  by code_simp

text \<open>
  Claim C3 does not hold of the code. The storage is constructed on a persisted record
  whose file does not exist. The first call of \<open>getEnvironments\<close> starts the file check
  and does not wait for it: the deferred was resolved by the constructor, the race is
  over at once, and the list returned holds the record, while the check is still
  pending. Only a call made after the check has resolved returns a list without it.
\<close>

theorem getEnvironments_returns_unpruned_record:
  "returned (run posix_normalize noFileExists stale_record_run
     (newEnvironmentsStorage [(''/gone/python'', gone_python)] []))
     = [[gone_python]]
   \<and> validityPending (run posix_normalize noFileExists stale_record_run
     (newEnvironmentsStorage [(''/gone/python'', gone_python)] []))
     = [(PartialMap, ''/gone/python'', gone_python)]
   \<and> returned (run posix_normalize noFileExists
       (stale_record_run @ [ValidityResolved 0, GetEnvironmentsCalled, GetEnvironmentsReturns])
     (newEnvironmentsStorage [(''/gone/python'', gone_python)] []))
     = [[gone_python], []]"
  by (simp add: stale_record_run_def storage_eval)

lemma discovered_run_result:
  "run posix_normalize everyFileExists discovered_run (newEnvironmentsStorage [] []) =
     \<lparr> partialInfoEnvironmentMap = [(''/usr/bin/python3'', usr_python3)],
       completeInfoEnvironmentMap = [],
       didEffortToPopulateStorageSucceed = Some True, didChangeCollectionFired = 1,
       environmentInfoRequests = [''/usr/bin/python3''],
       storeCompleteInfoPending = [(usr_python3, False)],
       validityPending = [], waitingCalls = 0, returned = [] \<rparr>"
  by (simp add: discovered_run_def storage_eval posix_normalize_usr_python3)



lemma getEnvironments_best_effort_instance:
  "0 < waitingCalls (run posix_normalize everyFileExists waiting_run (newEnvironmentsStorage [] []))
   \<and> didEffortToPopulateStorageSucceed
        (run posix_normalize everyFileExists waiting_run (newEnvironmentsStorage [] [])) \<noteq> None
   \<and> returned (getEnvironments_returns
        (run posix_normalize everyFileExists waiting_run (newEnvironmentsStorage [] []))) = [[]]
   \<and> didEffortToPopulateStorageSucceed (newEnvironmentsStorage [] []) = None
   \<and> getEnvironments_returns (newEnvironmentsStorage [] []) = newEnvironmentsStorage [] []
   \<and> completeInfoEnvironmentMap
        (run posix_normalize everyFileExists enriched_run (newEnvironmentsStorage [] [])) \<noteq> []
   \<and> didEffortToPopulateStorageSucceed
        (run posix_normalize everyFileExists enriched_run (newEnvironmentsStorage [] [])) \<noteq> None
   \<and> [] \<in> set (returned
        (run posix_normalize everyFileExists nothing_found_run (newEnvironmentsStorage [] [])))
   \<and> didEffortToPopulateStorageSucceed
        (run posix_normalize everyFileExists nothing_found_run (newEnvironmentsStorage [] []))
       = Some False
   \<and> AllEnvironmentsStored \<in> set nothing_found_run"
proof -
  let ?new = "newEnvironmentsStorage [] []"
  let ?w = "run posix_normalize everyFileExists waiting_run ?new"
  have w: "0 < waitingCalls ?w \<and> didEffortToPopulateStorageSucceed ?w \<noteq> None
      \<and> returned ?w = [] \<and> getEnvironments_items ?w = []"
    by (simp add: waiting_run_def storage_eval)
  have n: "didEffortToPopulateStorageSucceed ?new = None"
    by (simp add: newEnvironmentsStorage_def map_size_def)
  have c: "completeInfoEnvironmentMap (run posix_normalize everyFileExists enriched_run ?new) \<noteq> []"
    unfolding enriched_run_result by simp
  have files: "\<forall>p. everyFileExists p"
    by (simp add: everyFileExists_def)
  have probes: "\<forall>ev \<in> set nothing_found_run. probeSucceeds ev"
    by (simp add: nothing_found_run_def)
  have empty: "[] \<in> set (returned (run posix_normalize everyFileExists nothing_found_run ?new))"
    by (simp add: nothing_found_run_def storage_eval)
  note a = getEnvironments_best_effort [of ?w posix_normalize everyFileExists enriched_run
      "[]" "[]", unfolded Let_def]
  note b = getEnvironments_best_effort [of ?new posix_normalize everyFileExists
      nothing_found_run "[]" "[]", unfolded Let_def]
  have r: "returned (getEnvironments_returns ?w) = [[]]"
    using a w by simp
  have k: "getEnvironments_returns ?new = ?new"
    using b n by blast
  have l: "didEffortToPopulateStorageSucceed
      (run posix_normalize everyFileExists enriched_run ?new) \<noteq> None"
    using a c by blast
  have f: "didEffortToPopulateStorageSucceed
        (run posix_normalize everyFileExists nothing_found_run ?new) = Some False
      \<and> AllEnvironmentsStored \<in> set nothing_found_run"
    using b files probes empty by blast
  show ?thesis
    using w r n k c l empty f by blast
qed

section \<open>Properties of kernel-spec matching\<close>

lemma findSpecLoop_keep:
  "\<forall>x \<in> set specs. score x \<le> b \<Longrightarrow> findSpecLoop score specs (b, s) = (b, s)"
  by (induction specs) auto

lemma findSpecLoop_best:
  "\<exists>x \<in> set specs. score x > b \<Longrightarrow>
   \<exists>pre r post. specs = pre @ r # post \<and> findSpecLoop score specs (b, s) = (score r, Some r)
     \<and> b < score r \<and> (\<forall>x \<in> set pre. score x < score r) \<and> (\<forall>x \<in> set post. score x \<le> score r)"
proof (induction specs arbitrary: b s)
  case Nil
  then show ?case by simp
next
  case (Cons x specs)
  show ?case
  proof (cases "score x > b")
    case True
    show ?thesis
    proof (cases "\<exists>y \<in> set specs. score y > score x")
      case more: True
      from Cons.IH [OF more, of "Some x"] obtain pre r post where
        h: "specs = pre @ r # post" "findSpecLoop score specs (score x, Some x) = (score r, Some r)"
          "score x < score r" "\<forall>y \<in> set pre. score y < score r"
          "\<forall>y \<in> set post. score y \<le> score r"
        by blast
      have "x # specs = (x # pre) @ r # post" using h(1) by simp
      moreover have "findSpecLoop score (x # specs) (b, s) = (score r, Some r)"
        using True h(2) by simp
      moreover have "b < score r" using True h(3) by simp
      moreover have "\<forall>y \<in> set (x # pre). score y < score r" using h(3,4) by simp
      ultimately show ?thesis using h(5) by blast
    next
      case False
      then have le: "\<forall>y \<in> set specs. score y \<le> score x" by auto
      have "findSpecLoop score (x # specs) (b, s) = (score x, Some x)"
        using True findSpecLoop_keep [OF le] by simp
      moreover have "x # specs = [] @ x # specs" by simp
      ultimately show ?thesis using True le
        by (metis empty_iff list.set(1))
    qed
  next
    case False
    then have more: "\<exists>y \<in> set specs. score y > b" using Cons.prems by auto
    from Cons.IH [OF more, of s] obtain pre r post where
      h: "specs = pre @ r # post" "findSpecLoop score specs (b, s) = (score r, Some r)"
        "b < score r" "\<forall>y \<in> set pre. score y < score r"
        "\<forall>y \<in> set post. score y \<le> score r"
      by blast
    have "x # specs = (x # pre) @ r # post" using h(1) by simp
    moreover have "findSpecLoop score (x # specs) (b, s) = (score r, Some r)"
      using False h(2) by simp
    moreover have "\<forall>y \<in> set (x # pre). score y < score r" using False h(3,4) by auto
    ultimately show ?thesis using h(3,5) by blast
  qed
qed

lemma versionPoints_bounds: "0 \<le> versionPoints d i \<and> versionPoints d i \<le> 7"
  by (simp add: versionPoints_def)

lemma namePoints_bounds: "0 \<le> namePoints n i \<and> namePoints n i \<le> 4"
  by (simp add: namePoints_def split: option.splits prod.splits)

lemma versionPoints_le7: "versionPoints d i \<le> 7"
  by (simp add: versionPoints_def)

lemma namePoints_le7: "namePoints n i \<le> 7"
  using namePoints_bounds [of n i] by simp

lemma toLocaleLowerCase_Nil: "toLocaleLowerCase [] = []"
  by (simp add: toLocaleLowerCase_def)

lemma specScore_upper:
  "Some (spec_path spec) \<noteq> map_option interpreter_path info \<Longrightarrow> specScore env info spec \<le> 8"
  by (auto simp: specScore_def Let_def versionPoints_le7 namePoints_le7 split: option.splits)

lemma specScore_formula:
  "specScore env info spec =
     (if spec_path spec \<noteq> [] \<and> Some (spec_path spec) = map_option interpreter_path info
      then 10 else 0)
     + (if toLocaleLowerCase (spec_language spec) = ''python'' then
          1 + (case info of
                 None \<Rightarrow> 0
               | Some i \<Rightarrow>
                   if spec_path spec \<noteq> [] \<and> pathExists env (spec_path spec) then
                     (case getInterpreterDetails env (spec_path spec) of
                        None \<Rightarrow> 0
                      | Some details \<Rightarrow>
                          if version_info_0 details = version_info_0 i then
                            4 + (if version_info_1 details = version_info_1 i then
                                   2 + (if version_info_2 details = version_info_2 i
                                        then 1 else 0)
                                 else 0)
                          else 0)
                   else if toLocaleLowerCase (spec_path spec) = ''python''
                   then namePoints (spec_name spec) i
                   else 0)
        else 0)"
proof (cases info)
  case None
  then show ?thesis by (simp add: specScore_def Let_def)
next
  case (Some i)
  show ?thesis
  proof (cases "getInterpreterDetails env (spec_path spec)")
    case None
    then show ?thesis using Some by (simp add: specScore_def Let_def)
  next
    case (Some details)
    then show ?thesis using \<open>info = Some i\<close> by (simp add: specScore_def versionPoints_def Let_def)
  qed
qed

lemma namePoints_values: "namePoints name target = 0 \<or> namePoints name target = 4"
  by (simp add: namePoints_def split: option.splits prod.splits)

text \<open>
  Claim C5, as amended. The score of a spec is ten points when its path is not empty
  and equals the path of the target interpreter, plus, only when its language is
  Python, one point and, when the target is known, further points: if the spec's path
  is not empty and exists on disk and resolves to interpreter details, four for the
  same major version, two more for the same minor, one more for the same patch, each
  only if the coarser one matched; if the path is not such a file but is the bare word
  \<open>python\<close>, the points of the branch that reads the digits of the name (none or four;
  claim C9). The first spec with the highest score is selected; when no spec scores
  above zero the first spec is returned, and nothing when there are no specs. With
  \<open>/usr/bin/python3\<close> on disk and resolving to version 3.8.3, the first spec of the
  example scores 18 and is selected.
\<close>

theorem findSpecMatch_scoring:
  "specScore env info spec =
     (if spec_path spec \<noteq> [] \<and> Some (spec_path spec) = map_option interpreter_path info
      then 10 else 0)
     + (if toLocaleLowerCase (spec_language spec) = ''python'' then
          1 + (case info of
                 None \<Rightarrow> 0
               | Some i \<Rightarrow>
                   if spec_path spec \<noteq> [] \<and> pathExists env (spec_path spec) then
                     (case getInterpreterDetails env (spec_path spec) of
                        None \<Rightarrow> 0
                      | Some details \<Rightarrow>
                          if version_info_0 details = version_info_0 i then
                            4 + (if version_info_1 details = version_info_1 i then
                                   2 + (if version_info_2 details = version_info_2 i
                                        then 1 else 0)
                                 else 0)
                          else 0)
                   else if toLocaleLowerCase (spec_path spec) = ''python''
                   then namePoints (spec_name spec) i
                   else 0)
        else 0)
   \<and> (namePoints name target = 0 \<or> namePoints name target = 4)
   \<and> (specs = [] \<longrightarrow> findSpecMatch env specs = None)
   \<and> (specs \<noteq> [] \<and> (\<forall>x \<in> set specs. specScore env (getInterpreterInformation env) x \<le> 0) \<longrightarrow>
        findSpecMatch env specs = Some (hd specs))
   \<and> ((\<exists>x \<in> set specs. specScore env (getInterpreterInformation env) x > 0) \<longrightarrow>
        (\<exists>pre r post. specs = pre @ r # post \<and> findSpecMatch env specs = Some r
           \<and> (\<forall>x \<in> set pre. specScore env (getInterpreterInformation env) x
                  < specScore env (getInterpreterInformation env) r)
           \<and> (\<forall>x \<in> set post. specScore env (getInterpreterInformation env) x
                  \<le> specScore env (getInterpreterInformation env) r)))
   \<and> (getInterpreterInformation env = Some target
        \<and> interpreter_path target = ''/usr/bin/python3''
        \<and> version_info target = (3, 8, 3, level)
        \<and> pathExists env ''/usr/bin/python3''
        \<and> getInterpreterDetails env ''/usr/bin/python3'' = Some details
        \<and> version_info details = (3, 8, 3, level')
        \<and> spec_path spec1 = ''/usr/bin/python3'' \<and> spec_language spec1 = ''python''
        \<and> spec_path spec2 = ''/opt/py2'' \<and> spec_language spec2 = ''python'' \<longrightarrow>
        specScore env (Some target) spec1 = 18
        \<and> findSpecMatch env [spec1, spec2] = Some spec1)"
proof (intro conjI impI)
  show "specScore env info spec =
     (if spec_path spec \<noteq> [] \<and> Some (spec_path spec) = map_option interpreter_path info
      then 10 else 0)
     + (if toLocaleLowerCase (spec_language spec) = ''python'' then
          1 + (case info of
                 None \<Rightarrow> 0
               | Some i \<Rightarrow>
                   if spec_path spec \<noteq> [] \<and> pathExists env (spec_path spec) then
                     (case getInterpreterDetails env (spec_path spec) of
                        None \<Rightarrow> 0
                      | Some details \<Rightarrow>
                          if version_info_0 details = version_info_0 i then
                            4 + (if version_info_1 details = version_info_1 i then
                                   2 + (if version_info_2 details = version_info_2 i
                                        then 1 else 0)
                                 else 0)
                          else 0)
                   else if toLocaleLowerCase (spec_path spec) = ''python''
                   then namePoints (spec_name spec) i
                   else 0)
        else 0)"
    by (rule specScore_formula)
next
  show "namePoints name target = 0 \<or> namePoints name target = 4"
    by (rule namePoints_values)
next
  assume "specs = []"
  then show "findSpecMatch env specs = None"
    by (simp add: findSpecMatch_def)
next
  assume a: "specs \<noteq> [] \<and> (\<forall>x \<in> set specs. specScore env (getInterpreterInformation env) x \<le> 0)"
  then have "findSpecLoop (specScore env (getInterpreterInformation env)) specs (0, None) = (0, None)"
    by (intro findSpecLoop_keep) simp
  then show "findSpecMatch env specs = Some (hd specs)"
    using a by (cases specs) (simp_all add: findSpecMatch_def)
next
  assume "\<exists>x \<in> set specs. specScore env (getInterpreterInformation env) x > 0"
  from findSpecLoop_best [OF this, of None] obtain pre r post where
    h: "specs = pre @ r # post"
      "findSpecLoop (specScore env (getInterpreterInformation env)) specs (0, None)
         = (specScore env (getInterpreterInformation env) r, Some r)"
      "\<forall>x \<in> set pre. specScore env (getInterpreterInformation env) x
                  < specScore env (getInterpreterInformation env) r"
      "\<forall>x \<in> set post. specScore env (getInterpreterInformation env) x
                  \<le> specScore env (getInterpreterInformation env) r"
    by blast
  have "findSpecMatch env specs = Some r"
    using h(2) by (simp add: findSpecMatch_def)
  then show "\<exists>pre r post. specs = pre @ r # post \<and> findSpecMatch env specs = Some r
           \<and> (\<forall>x \<in> set pre. specScore env (getInterpreterInformation env) x
                  < specScore env (getInterpreterInformation env) r)
           \<and> (\<forall>x \<in> set post. specScore env (getInterpreterInformation env) x
                  \<le> specScore env (getInterpreterInformation env) r)"
    using h(1,3,4) by blast
next
  assume ex: "getInterpreterInformation env = Some target
        \<and> interpreter_path target = ''/usr/bin/python3''
        \<and> version_info target = (3, 8, 3, level)
        \<and> pathExists env ''/usr/bin/python3''
        \<and> getInterpreterDetails env ''/usr/bin/python3'' = Some details
        \<and> version_info details = (3, 8, 3, level')
        \<and> spec_path spec1 = ''/usr/bin/python3'' \<and> spec_language spec1 = ''python''
        \<and> spec_path spec2 = ''/opt/py2'' \<and> spec_language spec2 = ''python''"
  have lower: "toLocaleLowerCase ''python'' = ''python''"
    by (simp add: toLocaleLowerCase_def lowerChar_def)
  show s1: "specScore env (Some target) spec1 = 18"
    using ex lower
    by (simp add: specScore_def versionPoints_def version_info_0_def version_info_1_def
        version_info_2_def)
  have "Some (spec_path spec2) \<noteq> map_option interpreter_path (Some target)"
    using ex by simp
  then have s2: "specScore env (Some target) spec2 \<le> 8"
    by (rule specScore_upper)
  show "findSpecMatch env [spec1, spec2] = Some spec1"
    using ex s1 s2 by (simp add: findSpecMatch_def)
qed

lemma scoring_services_fields:
  "getInterpreterInformation scoring_services = Some target383"
  "pathExists scoring_services ''/usr/bin/python3''"
  "getInterpreterDetails scoring_services ''/usr/bin/python3'' = Some target383"
  "interpreter_path target383 = ''/usr/bin/python3''"
  "version_info target383 = (3, 8, 3, ''final'')"
  by (simp_all add: scoring_services_def target383_def only_usr_python3_exists_def
      only_usr_python3_details_def)

lemma example_scores:
  "specScore scoring_services (Some target383) usr_python3_spec = 18"
  "specScore scoring_services (Some target383) opt_py2_spec = 1"
  "specScore scoring_services (Some target383) spark_spec = 10"
  "specScore scoring_services (Some target383) bare_python3_spec = 1"
     apply (simp_all add: specScore_def scoring_services_def target383_def usr_python3_spec_def
      opt_py2_spec_def spark_spec_def bare_python3_spec_def
      only_usr_python3_exists_def only_usr_python3_details_def toLocaleLowerCase_def
      lowerChar_def versionPoints_def version_info_0_def version_info_1_def version_info_2_def
      namePoints_def nameDigitsRegEx_exec_def parseInt_def isDigit_def isWhiteSpace_def Let_def)
  done

theorem findSpecMatch_scoring_witness:
  "specScore scoring_services (Some target383) usr_python3_spec = 18
   \<and> findSpecMatch scoring_services [usr_python3_spec, opt_py2_spec] = Some usr_python3_spec
   \<and> specScore scoring_services (Some target383) spark_spec = 10
   \<and> specScore scoring_services (Some target383) opt_py2_spec = 1
   \<and> findSpecMatch scoring_services [] = None
   \<and> findSpecMatch scoring_services [julia_spec, julia_spec] = Some julia_spec
   \<and> findSpecMatch scoring_services [spark_spec, usr_python3_spec, usr_python3_spec]
       = Some usr_python3_spec"
proof -
  note empty = findSpecMatch_scoring [where env = scoring_services and specs = "[]",
      THEN conjunct2, THEN conjunct2, THEN conjunct1]
  note v = findSpecMatch_scoring [where env = scoring_services
      and specs = "[julia_spec, julia_spec]",
      THEN conjunct2, THEN conjunct2, THEN conjunct2, THEN conjunct1]
  note u = findSpecMatch_scoring [where env = scoring_services
      and specs = "[spark_spec, usr_python3_spec, usr_python3_spec]",
      THEN conjunct2, THEN conjunct2, THEN conjunct2, THEN conjunct2, THEN conjunct1]
  note t = findSpecMatch_scoring [where env = scoring_services and target = target383
      and level = "''final''" and details = target383 and level' = "''final''"
      and ?spec1.0 = usr_python3_spec and ?spec2.0 = opt_py2_spec,
      THEN conjunct2, THEN conjunct2, THEN conjunct2, THEN conjunct2, THEN conjunct2]
  have paths: "spec_path usr_python3_spec = ''/usr/bin/python3''"
    "spec_language usr_python3_spec = ''python''"
    "spec_path opt_py2_spec = ''/opt/py2''" "spec_language opt_py2_spec = ''python''"
    by (simp_all add: usr_python3_spec_def opt_py2_spec_def)
  have a: "specScore scoring_services (Some target383) usr_python3_spec = 18
      \<and> findSpecMatch scoring_services [usr_python3_spec, opt_py2_spec] = Some usr_python3_spec"
    using t scoring_services_fields paths by blast
  have b: "findSpecMatch scoring_services [] = None"
    using empty by simp
  have c: "specScore scoring_services (Some target383) spark_spec = 10"
    by (subst findSpecMatch_scoring [THEN conjunct1]) code_simp
  have c2: "specScore scoring_services (Some target383) opt_py2_spec = 1"
    by (subst findSpecMatch_scoring [THEN conjunct1]) code_simp
  have zero: "specScore scoring_services (getInterpreterInformation scoring_services) julia_spec = 0"
    by code_simp
  have "[julia_spec, julia_spec] \<noteq> []
      \<and> (\<forall>x \<in> set [julia_spec, julia_spec].
            specScore scoring_services (getInterpreterInformation scoring_services) x \<le> 0)"
    using zero by simp
  then have "findSpecMatch scoring_services [julia_spec, julia_spec]
      = Some (hd [julia_spec, julia_spec])"
    using v by blast
  then have e: "findSpecMatch scoring_services [julia_spec, julia_spec] = Some julia_spec"
    by simp
  have "\<exists>x \<in> set [spark_spec, usr_python3_spec, usr_python3_spec].
          specScore scoring_services (getInterpreterInformation scoring_services) x > 0"
    by (simp add: scoring_services_fields example_scores)
  with u obtain pre r post where
    h: "[spark_spec, usr_python3_spec, usr_python3_spec] = pre @ r # post"
      "findSpecMatch scoring_services [spark_spec, usr_python3_spec, usr_python3_spec] = Some r"
      "\<forall>x \<in> set pre. specScore scoring_services (getInterpreterInformation scoring_services) x
                  < specScore scoring_services (getInterpreterInformation scoring_services) r"
      "\<forall>x \<in> set post. specScore scoring_services (getInterpreterInformation scoring_services) x
                  \<le> specScore scoring_services (getInterpreterInformation scoring_services) r"
    by blast
  have d: "findSpecMatch scoring_services [spark_spec, usr_python3_spec, usr_python3_spec]
      = Some usr_python3_spec"
  proof -
    have "r \<in> set [spark_spec, usr_python3_spec, usr_python3_spec]"
      using h(1) by (metis in_set_conv_decomp)
    then have "r = spark_spec \<or> r = usr_python3_spec" by auto
    moreover have "r \<noteq> spark_spec"
    proof
      assume r: "r = spark_spec"
      then have "pre = []"
        using h(1,3) by (cases pre) (auto simp: scoring_services_fields example_scores)
      then have "usr_python3_spec \<in> set post" using h(1) by auto
      then show False
        using h(4) r by (auto simp: scoring_services_fields example_scores)
    qed
    ultimately show ?thesis using h(2) by simp
  qed
  show ?thesis using a b c c2 d e by blast
qed

text \<open>
  Claim C5 as stated fails: a spec that declares another language and whose path is the
  target interpreter gets the ten points for the path and no points for the version,
  where the stated sum gives 17.
\<close>

theorem specScore_other_language_no_version_points:
  "specScore scoring_services (Some target383) spark_spec = 10
   \<and> statedSpecScore scoring_services (Some target383) spark_spec = 17"
  by (simp add: specScore_def statedSpecScore_def scoring_services_def target383_def
      spark_spec_def only_usr_python3_exists_def only_usr_python3_details_def
      toLocaleLowerCase_def lowerChar_def versionPoints_def version_info_0_def
      version_info_1_def version_info_2_def Let_def)

text \<open>
  Claim C9 does not hold of the code. The spec \<open>python3\<close> has the path \<open>python\<close>, which
  is not a file, and the target has major version 3. The regular expression matches
  \<open>python3\<close> with the group \<open>3\<close>, but the code parses the whole match, \<open>parseInt\<close>
  gives \<open>NaN\<close>, and the four points are not awarded: the spec scores 1.
\<close>

theorem namePoints_parses_whole_match:
  "nameDigitsRegEx_exec ''python3'' = Some (''python3'', ''3'')
   \<and> parseInt ''python3'' = None
   \<and> \<not> pathExists scoring_services (spec_path bare_python3_spec)
   \<and> version_info_0 target383 = 3
   \<and> namePoints (spec_name bare_python3_spec) target383 = 0
   \<and> specScore scoring_services (Some target383) bare_python3_spec = 1"
  by (simp add: specScore_def scoring_services_def target383_def bare_python3_spec_def
      only_usr_python3_exists_def only_usr_python3_details_def toLocaleLowerCase_def
      lowerChar_def version_info_0_def
      namePoints_def nameDigitsRegEx_exec_def parseInt_def isDigit_def isWhiteSpace_def Let_def)

section \<open>Properties of command resolution\<close>

text \<open>
  Claim C6 does not hold of the code. The \<open>notebook\<close> command is resolved while \<open>env_a\<close>
  is the active interpreter, with one process started, and is stored under its name.
  The user makes \<open>env_b\<close> active; \<open>onSettingsChanged\<close> runs \<open>dispose\<close>, which empties
  the created specs and the chosen interpreter and leaves \<open>commands\<close> as it is. The next
  resolution starts no process and returns the command of \<open>env_a\<close>.
\<close>

theorem findBestCommand_survives_interpreter_change:
  "findBestCommand services_active_a NotebookCommand newJupyterExecution =
     (Some \<lparr> exe = ''/envs/a/bin/python'', requiredArgs = [''-m'', ''jupyter'', ''notebook''] \<rparr>,
      newJupyterExecution
        \<lparr> commands := [(''notebook'', \<lparr> exe = ''/envs/a/bin/python'',
                          requiredArgs = [''-m'', ''jupyter'', ''notebook''] \<rparr>)],
          executed := [(''/envs/a/bin/python'',
                        [''-m'', ''jupyter'', ''notebook'', ''--version''])] \<rparr>)
   \<and> getActiveInterpreter services_active_b = Some env_b
   \<and> onSettingsChanged services_active_b
        (snd (findBestCommand services_active_a NotebookCommand newJupyterExecution))
       = (True, snd (findBestCommand services_active_a NotebookCommand newJupyterExecution))
   \<and> findBestCommand services_active_b NotebookCommand
        (snd (onSettingsChanged services_active_b
           (snd (findBestCommand services_active_a NotebookCommand newJupyterExecution))))
       = (Some \<lparr> exe = ''/envs/a/bin/python'',
                 requiredArgs = [''-m'', ''jupyter'', ''notebook''] \<rparr>,
          snd (findBestCommand services_active_a NotebookCommand newJupyterExecution))"
  by code_simp

lemma lookForJupyterInDirectory_Nil: "lookForJupyterInDirectory env dir = []"
  by (simp add: lookForJupyterInDirectory_def lookForJupyterCallback_def truthyValue_def
      split: option.splits)

lemma searchPathsLoop_keeps: "searchPathsLoop env paths found = found"
  by (induction paths) (simp_all add: lookForJupyterInDirectory_Nil)

lemma doesJupyterCommandExist_jupyterPath:
  "jupyterPath (snd (doesJupyterCommandExist env c s)) = jupyterPath s"
  by (cases "exec env ''jupyter'' (if c \<noteq> [] then map (\<lambda>ch. [ch]) c else [])")
    (simp_all add: doesJupyterCommandExist_def Let_def)

lemma findPathCommand_None:
  assumes "\<not> truthyString (jupyterPath s)"
  shows "fst (findPathCommand env command s) = None"
proof -
  obtain ok s1 where d: "doesJupyterCommandExist env command s = (ok, s1)"
    by (cases "doesJupyterCommandExist env command s") auto
  have j: "jupyterPath s1 = jupyterPath s"
    using doesJupyterCommandExist_jupyterPath [of env command s] d by simp
  have f: "searchPathsForJupyter env s1 = (jupyterPath s1, s1\<lparr> jupyterPath := jupyterPath s1 \<rparr>)"
    using assms j by (simp add: searchPathsForJupyter_def searchPathsLoop_keeps Let_def)
  show ?thesis
  proof (cases ok)
    case True
    have "fst (findPathCommand env command s) =
        (case jupyterPath s of None \<Rightarrow> None
         | Some p \<Rightarrow> if p \<noteq> [] then Some \<lparr> exe = p, requiredArgs = [command] \<rparr> else None)"
      using True j by (simp add: findPathCommand_def d f split: option.splits)
    then show ?thesis
      using assms by (simp add: truthyString_def split: option.splits)
  next
    case False
    then show ?thesis by (simp add: findPathCommand_def d)
  qed
qed

text \<open>
  Claim C7 does not hold of the code in its last part. No interpreter has Jupyter,
  \<open>jupyter\<close> runs from the shell and the search path \<open>/usr/local/bin\<close> holds a file
  \<open>jupyter\<close>, which the regular expression accepts. The resolution probes the active
  interpreter, then the other one, then \<open>jupyter\<close> itself, in this order, and ends
  without a command and with nothing stored: the callback of \<open>filter\<close> returns nothing,
  so no directory entry is ever kept.
\<close>

theorem findBestCommand_never_finds_jupyter_on_path:
  "fsReaddirAsync services_jupyter_on_path ''/usr/local/bin'' = Some [''jupyter'', ''python3'']
   \<and> CheckJupyterRegEx_test (IS_WINDOWS services_jupyter_on_path) (basename ''jupyter'')
   \<and> fst (doesJupyterCommandExist services_jupyter_on_path NotebookCommand newJupyterExecution)
   \<and> lookForJupyterInDirectory services_jupyter_on_path ''/usr/local/bin'' = []
   \<and> fst (findPathCommand services_jupyter_on_path NotebookCommand newJupyterExecution) = None
   \<and> findBestCommand services_jupyter_on_path NotebookCommand newJupyterExecution =
       (None,
        newJupyterExecution
          \<lparr> executed :=
              [(''/envs/a/bin/python'', [''-m'', ''jupyter'', ''notebook'', ''--version'']),
               (''/envs/b/bin/python'', [''-m'', ''jupyter'', ''notebook'', ''--version'']),
               (''jupyter'', [''n'', ''o'', ''t'', ''e'', ''b'', ''o'', ''o'', ''k''])] \<rparr>)"
  by code_simp

section \<open>Properties of the choice of the notebook interpreter\<close>


lemma doesModuleExist_usable:
  "usablePythonInterpreter (snd (doesModuleExist env m i s)) = usablePythonInterpreter s"
  by (simp add: doesModuleExist_def split: option.splits)

















end
